theory Spec2Isabelle
  imports Complex_Main "HOL-Library.Char_ord" "HOL-Library.List_Lexorder"
begin

section \<open>Identities\<close>

text \<open>
  The three subclasses of \<^verbatim>\<open>Character\<close>. A scenario stores the class objects themselves
  (never instances), so an identity is one of three constants.
\<close>

datatype identity = Knight | Monk | Knave

fun title :: "identity \<Rightarrow> string" where
  "title Knight = ''Knight''"
| "title Monk = ''Monk''"
| "title Knave = ''Knave''"

fun short_identifier :: "identity \<Rightarrow> string" where
  "short_identifier Knight = ''K''"
| "short_identifier Monk = ''M''"
| "short_identifier Knave = ''V''"

fun truth_quantifier :: "identity \<Rightarrow> int" where
  "truth_quantifier Knight = 1"
| "truth_quantifier Monk = 0"
| "truth_quantifier Knave = - 1"

section \<open>Errors\<close>

text \<open>
  Every exception the modelled code can raise. \<open>CharacterIdentifierError n\<close> stands for the
  exception whose message is \<^verbatim>\<open>Cannot find character 'n'.\<close>; \<open>TooManyMonksError k\<close> carries
  the monk count of its message; \<open>KeyError\<close>, \<open>IndexError\<close> and \<open>TypeError\<close> are Python's own.
\<close>

datatype error =
    CharacterIdentifierError string
  | TooManyMonksError int
  | KeyError string
  | IndexError
  | TypeError

section \<open>Statements\<close>

text \<open>
  The comparison functions of the \<^verbatim>\<open>operator\<close> module that the code passes around as
  \<^verbatim>\<open>claimed_relation\<close>.
\<close>

datatype relation = op_lt | op_gt | op_le | op_ge | op_eq

fun apply_relation :: "relation \<Rightarrow> int \<Rightarrow> int \<Rightarrow> bool" where
  "apply_relation op_lt a b = (a < b)"
| "apply_relation op_gt a b = (a > b)"
| "apply_relation op_le a b = (a \<le> b)"
| "apply_relation op_ge a b = (a \<ge> b)"
| "apply_relation op_eq a b = (a = b)"

text \<open>
  One constructor per concrete subclass of \<^verbatim>\<open>Statement\<close>. \<open>SamenessCount\<close> carries, as its
  third field, the \<^verbatim>\<open>disjunctive_statement\<close> attribute that its constructor builds.
\<close>

datatype statement =
    TrueStatement
  | ConjunctiveStatement "statement list"
  | DisjunctiveStatement "statement list"
  | NotStatement statement
  | IsOfType string identity
  | IsSameAs string string
  | Honesty string string relation
  | CountOfType identity int relation
  | IfConnective statement statement
  | ExclusiveOrConnective statement statement
  | SamenessCount int relation statement

text \<open>
  \<^verbatim>\<open>SamenessCount.__init__\<close>: one \<open>CountOfType\<close> per possible character, in the iteration
  order \<open>pcs\<close> of the set \<^verbatim>\<open>POSSIBLE_CHARACTERS\<close>.
\<close>

definition SamenessCount_init :: "identity list \<Rightarrow> int \<Rightarrow> relation \<Rightarrow> statement" where
  "SamenessCount_init pcs claimed_count claimed_relation =
     SamenessCount claimed_count claimed_relation
       (DisjunctiveStatement (map (\<lambda>kind. CountOfType kind claimed_count claimed_relation) pcs))"

section \<open>Scenarios\<close>

text \<open>
  \<^verbatim>\<open>character_types\<close> is a Python dict: an association list in insertion order whose keys
  are distinct. \<^verbatim>\<open>result\<close> is \<open>None\<close> until the consistency check has stored its pair.
  The back reference \<^verbatim>\<open>self.puzzle\<close> is passed as an argument where it is read.
\<close>

record scenario =
  character_types :: "(string \<times> identity) list"
  result :: "(bool \<times> string option) option"

definition Scenario :: "(string \<times> identity) list \<Rightarrow> scenario" where
  "Scenario cts = \<lparr>character_types = cts, result = None\<rparr>"

text \<open>\<^verbatim>\<open>d[k] = v\<close> on a dict: an existing key keeps its position, a new key goes last.\<close>

fun dict_set :: "('k \<times> 'v) list \<Rightarrow> 'k \<Rightarrow> 'v \<Rightarrow> ('k \<times> 'v) list" where
  "dict_set [] k v = [(k, v)]"
| "dict_set ((k', v') # d) k v = (if k' = k then (k, v) # d else (k', v') # dict_set d k v)"

section \<open>Truth of a statement\<close>

datatype combiner = Conjunctive | Disjunctive

fun for_each_statement :: "combiner \<Rightarrow> bool \<Rightarrow> bool option" where
  "for_each_statement Conjunctive truth_value = (if truth_value = False then Some False else None)"
| "for_each_statement Disjunctive truth_value = (if truth_value = True then Some True else None)"

fun default_value :: "combiner \<Rightarrow> bool" where
  "default_value Conjunctive = True"
| "default_value Disjunctive = False"

text \<open>The module-level \<^verbatim>\<open>lookup(scenario, *keys)\<close>.\<close>

fun lookup :: "scenario \<Rightarrow> string list \<Rightarrow> error + identity list" where
  "lookup sc [] = Inr []"
| "lookup sc (key # keys) =
     (case map_of (character_types sc) key of
        None \<Rightarrow> Inl (CharacterIdentifierError key)
      | Some t \<Rightarrow> (case lookup sc keys of Inl e \<Rightarrow> Inl e | Inr ret \<Rightarrow> Inr (t # ret)))"

text \<open>
  \<^verbatim>\<open>evaluate_truth\<close> of every subclass; \<open>combiner_loop\<close> is the \<^verbatim>\<open>for\<close> loop of
  \<^verbatim>\<open>AbstractStatementCombiner.evaluate_truth\<close>, which returns as soon as
  \<^verbatim>\<open>for_each_statement\<close> gives a value. \<^verbatim>\<open>AbstractConnective\<close> evaluates both of its
  operands before it combines them.
\<close>

fun evaluate_truth :: "statement \<Rightarrow> scenario \<Rightarrow> error + bool"
  and combiner_loop :: "combiner \<Rightarrow> statement list \<Rightarrow> scenario \<Rightarrow> error + bool" where
  "evaluate_truth TrueStatement sc = Inr True"
| "evaluate_truth (ConjunctiveStatement sts) sc = combiner_loop Conjunctive sts sc"
| "evaluate_truth (DisjunctiveStatement sts) sc = combiner_loop Disjunctive sts sc"
| "evaluate_truth (NotStatement st) sc =
     (case evaluate_truth st sc of Inl e \<Rightarrow> Inl e | Inr truth \<Rightarrow> Inr (\<not> truth))"
| "evaluate_truth (IsOfType target_name claimed_character_type) sc =
     (case map_of (character_types sc) target_name of
        None \<Rightarrow> Inl (CharacterIdentifierError target_name)
      | Some t \<Rightarrow> Inr (t = claimed_character_type))"
| "evaluate_truth (IsSameAs target_1_name target_2_name) sc =
     (case map_of (character_types sc) target_1_name of
        None \<Rightarrow> Inl (CharacterIdentifierError target_1_name)
      | Some target_1_kind \<Rightarrow>
          (case map_of (character_types sc) target_2_name of
             None \<Rightarrow> Inl (CharacterIdentifierError target_2_name)
           | Some target_2_kind \<Rightarrow> Inr (target_1_kind = target_2_kind)))"
| "evaluate_truth (Honesty target_1_name target_2_name claimed_relation) sc =
     (case lookup sc [target_1_name, target_2_name] of
        Inl e \<Rightarrow> Inl e
      | Inr kinds \<Rightarrow>
          Inr (apply_relation claimed_relation
                 (truth_quantifier (kinds ! 0)) (truth_quantifier (kinds ! 1))))"
| "evaluate_truth (CountOfType character_type claimed_count claimed_relation) sc =
     Inr (apply_relation claimed_relation
            (int (count_list (map snd (character_types sc)) character_type)) claimed_count)"
| "evaluate_truth (IfConnective a b) sc =
     (case evaluate_truth a sc of
        Inl e \<Rightarrow> Inl e
      | Inr ta \<Rightarrow> (case evaluate_truth b sc of Inl e \<Rightarrow> Inl e | Inr tb \<Rightarrow> Inr ((\<not> ta) \<or> tb)))"
| "evaluate_truth (ExclusiveOrConnective a b) sc =
     (case evaluate_truth a sc of
        Inl e \<Rightarrow> Inl e
      | Inr ta \<Rightarrow>
          (case evaluate_truth b sc of
             Inl e \<Rightarrow> Inl e
           | Inr tb \<Rightarrow> Inr ((ta \<or> tb) \<and> \<not> (ta \<and> tb))))"
| "evaluate_truth (SamenessCount claimed_count claimed_relation disjunctive_statement) sc =
     evaluate_truth disjunctive_statement sc"
| "combiner_loop c [] sc = Inr (default_value c)"
| "combiner_loop c (st # sts) sc =
     (case evaluate_truth st sc of
        Inl e \<Rightarrow> Inl e
      | Inr truth \<Rightarrow>
          (case for_each_statement c truth of
             Some r \<Rightarrow> Inr r
           | None \<Rightarrow> combiner_loop c sts sc))"

text \<open>
  \<^verbatim>\<open>Statement.evaluate_consistency\<close>: a Monk returns before the statement is evaluated.
\<close>

fun evaluate_consistency :: "statement \<Rightarrow> identity \<Rightarrow> scenario \<Rightarrow> error + bool" where
  "evaluate_consistency st speaking_character_type sc =
     (if speaking_character_type = Monk then Inr True
      else (case evaluate_truth st sc of
              Inl e \<Rightarrow> Inl e
            | Inr truth \<Rightarrow>
                (if speaking_character_type = Knight then Inr truth else Inr (\<not> truth))))"

section \<open>Rendering a statement\<close>

fun english_operator_helper :: "relation \<Rightarrow> string" where
  "english_operator_helper op_eq = ''exactly''"
| "english_operator_helper op_lt = ''less than''"
| "english_operator_helper op_gt = ''more than''"
| "english_operator_helper op_le = ''less than or exactly''"
| "english_operator_helper op_ge = ''more than or exactly''"

fun str_nat :: "nat \<Rightarrow> string" where
  "str_nat n =
     (if n < 10 then [char_of (48 + n)] else str_nat (n div 10) @ [char_of (48 + n mod 10)])"

declare str_nat.simps [simp del]

definition str_int :: "int \<Rightarrow> string" where
  "str_int i = (if i < 0 then ''-'' @ str_nat (nat (- i)) else str_nat (nat i))"

text \<open>\<^verbatim>\<open>sep.join(xs)\<close>.\<close>

fun join :: "string \<Rightarrow> string list \<Rightarrow> string" where
  "join sep [] = []"
| "join sep [x] = x"
| "join sep (x # y # ys) = x @ sep @ join sep (y # ys)"

text \<open>
  \<^verbatim>\<open>str(statement)\<close>: \<^verbatim>\<open>as_sentence\<close> for the leaves and connectives, the overridden
  \<^verbatim>\<open>__str__\<close> for the combiners and for negation.
\<close>

fun str_statement :: "statement \<Rightarrow> string" where
  "str_statement TrueStatement = ''2+2=4.''"
| "str_statement (ConjunctiveStatement sts) =
     join '' AND '' (map (\<lambda>s. ''('' @ str_statement s @ '')'') sts)"
| "str_statement (DisjunctiveStatement sts) =
     join '' OR '' (map (\<lambda>s. ''('' @ str_statement s @ '')'') sts)"
| "str_statement (NotStatement st) = ''NOT('' @ str_statement st @ '')''"
| "str_statement (IsOfType target_name claimed_character_type) =
     target_name @ '' is a '' @ title claimed_character_type @ ''.''"
| "str_statement (IsSameAs target_1_name target_2_name) =
     target_1_name @ '' is the same as '' @ target_2_name @ ''.''"
| "str_statement (Honesty target_1_name target_2_name claimed_relation) =
     target_1_name @ [CHR 0x27] @ ''s honesty is '' @ english_operator_helper claimed_relation
       @ '' '' @ target_2_name @ [CHR 0x27] @ ''s honesty.''"
| "str_statement (CountOfType character_type claimed_count claimed_relation) =
     ''There are '' @ english_operator_helper claimed_relation @ '' '' @ str_int claimed_count
       @ '' '' @ title character_type @ ''s.''"
| "str_statement (IfConnective a b) =
     ''If '' @ str_statement a @ '', then '' @ str_statement b @ ''.''"
| "str_statement (ExclusiveOrConnective a b) =
     str_statement a @ '' OR '' @ str_statement b @ '', BUT NOT BOTH.''"
| "str_statement (SamenessCount claimed_count claimed_relation disjunctive_statement) =
     english_operator_helper claimed_relation @ '' '' @ str_int claimed_count
       @ '' of us are the same.''"

section \<open>Puzzles\<close>

text \<open>
  \<^verbatim>\<open>character_statements\<close> is a dict in insertion order. \<^verbatim>\<open>is_solved\<close> and
  \<^verbatim>\<open>scenarios\<close> are the mutable fields; every method that writes them returns the puzzle.
\<close>

record puzzle =
  is_solved :: bool
  scenarios :: "scenario list"
  character_names :: "string list"
  character_statements :: "(string \<times> statement list) list"
  max_num_monks :: int

definition CHARACTER_COUNT_BOUND :: "int list" where
  "CHARACTER_COUNT_BOUND = [3, 7]"

definition SOLUTION_COUNT_BOUND :: "int list" where
  "SOLUTION_COUNT_BOUND = [0, 2]"

definition num_characters :: "puzzle \<Rightarrow> nat" where
  "num_characters p = length (character_names p)"

text \<open>
  \<^verbatim>\<open>_calculate_max_num_monks\<close>. \<^verbatim>\<open>//\<close> is floor division and \<^verbatim>\<open>/\<close> is true division. The
  character count is the length of a list, far below \<open>2 ^ 53\<close>, where its quotient by two is
  exact in a float; so the quotient is taken in the reals.
\<close>

definition calculate_max_num_monks :: "nat \<Rightarrow> bool \<Rightarrow> int" where
  "calculate_max_num_monks n allow_monks =
     (if allow_monks = False then 0
      else (let max_num_monks = int n div 2
            in if real_of_int max_num_monks = real n / 2 then max_num_monks - 1
               else max_num_monks))"

text \<open>
  \<^verbatim>\<open>Puzzle.__init__\<close>. The argument is a dict whose values are lists of statements (a bare
  statement is wrapped into a one-element list by the constructor before it is stored).
\<close>

definition Puzzle :: "(string \<times> statement list) list \<Rightarrow> bool \<Rightarrow> puzzle" where
  "Puzzle character_names_and_statements allow_monks =
     \<lparr>is_solved = False,
      scenarios = [],
      character_names = map fst character_names_and_statements,
      character_statements =
        fold (\<lambda>(character_name, statements) d. dict_set d character_name statements)
          character_names_and_statements [],
      max_num_monks =
        calculate_max_num_monks (length (map fst character_names_and_statements)) allow_monks\<rparr>"

section \<open>Consistency of a scenario\<close>

text \<open>
  The loop of \<^verbatim>\<open>Scenario._check_consistency\<close> over the items of
  \<^verbatim>\<open>self.puzzle.character_statements\<close>.
\<close>

fun check_consistency_loop ::
  "scenario \<Rightarrow> (string \<times> statement list) list \<Rightarrow> error + (bool \<times> string option)" where
  "check_consistency_loop sc [] = Inr (True, None)"
| "check_consistency_loop sc ((character_name, statements) # rest) =
     (case map_of (character_types sc) character_name of
        None \<Rightarrow> Inl (KeyError character_name)
      | Some speaking_character_type \<Rightarrow>
          (case (case statements of
                   [] \<Rightarrow> None
                 | [s] \<Rightarrow> Some s
                 | _ \<Rightarrow> Some (ConjunctiveStatement statements)) of
             None \<Rightarrow> check_consistency_loop sc rest
           | Some st \<Rightarrow>
               (case evaluate_consistency st speaking_character_type sc of
                  Inl e \<Rightarrow> Inl e
                | Inr c \<Rightarrow>
                    (if c = False
                     then Inr (False,
                            Some (character_name @ '' should not have said '' @ [CHR 0x22]
                                    @ str_statement st @ [CHR 0x22] @ ''.''))
                     else check_consistency_loop sc rest))))"

text \<open>
  \<^verbatim>\<open>Scenario._check_consistency\<close> and \<^verbatim>\<open>Scenario.check_consistency\<close>, which stores the
  result in the scenario.
\<close>

definition private_check_consistency ::
  "puzzle \<Rightarrow> scenario \<Rightarrow> error + (bool \<times> string option)" where
  "private_check_consistency p sc = check_consistency_loop sc (character_statements p)"

definition check_consistency ::
  "puzzle \<Rightarrow> scenario \<Rightarrow> error + ((bool \<times> string option) \<times> scenario)" where
  "check_consistency p sc =
     (case private_check_consistency p sc of
        Inl e \<Rightarrow> Inl e
      | Inr r \<Rightarrow> Inr (r, sc\<lparr>result := Some r\<rparr>))"

section \<open>Equality and hashing of scenarios\<close>

text \<open>The loop and the length test of \<^verbatim>\<open>Scenario.__eq__\<close> (the same in both source files).\<close>

fun eq_loop :: "(string \<times> identity) list \<Rightarrow> (string \<times> identity) list \<Rightarrow> error + bool" where
  "eq_loop [] other = Inr True"
| "eq_loop ((name, t) # rest) other =
     (case map_of other name of
        None \<Rightarrow> Inl (KeyError name)
      | Some t' \<Rightarrow> (if t' \<noteq> t then Inr False else eq_loop rest other))"

definition Scenario_eq :: "scenario \<Rightarrow> scenario \<Rightarrow> error + bool" where
  "Scenario_eq self other =
     (if length (character_types self) \<noteq> length (character_types other) then Inr False
      else eq_loop (character_types self) (character_types other))"

text \<open>
  \<^verbatim>\<open>Scenario.__hash__\<close> of \<^verbatim>\<open>package/puzzle_generator.py\<close>: the string is built over the
  sorted names and then given to the builtin \<^verbatim>\<open>hash\<close>, which is the parameter \<open>h\<close>.
\<close>

fun character_string_loop ::
  "(string \<times> identity) list \<Rightarrow> string list \<Rightarrow> string \<Rightarrow> error + string" where
  "character_string_loop cts [] character_string = Inr character_string"
| "character_string_loop cts (name # names) character_string =
     (case map_of cts name of
        None \<Rightarrow> Inl (KeyError name)
      | Some t \<Rightarrow>
          character_string_loop cts names
            (character_string @ name @ '','' @ short_identifier t @ ''|''))"

definition Scenario_character_string :: "scenario \<Rightarrow> error + string" where
  "Scenario_character_string sc =
     character_string_loop (character_types sc) (sort (map fst (character_types sc))) ''|''"

definition Scenario_hash :: "(string \<Rightarrow> int) \<Rightarrow> scenario \<Rightarrow> error + int" where
  "Scenario_hash h sc = (case Scenario_character_string sc of Inl e \<Rightarrow> Inl e | Inr s \<Rightarrow> Inr (h s))"

text \<open>
  \<^verbatim>\<open>Scenario.__hash__\<close> of the top-level \<^verbatim>\<open>puzzle_generator.py\<close>: the string is built over
  the items in insertion order.
\<close>

fun character_string_old :: "(string \<times> identity) list \<Rightarrow> string \<Rightarrow> string" where
  "character_string_old [] character_string = character_string"
| "character_string_old ((name, t) # rest) character_string =
     character_string_old rest (character_string @ name @ '','' @ short_identifier t @ ''|'')"

definition Scenario_hash_old :: "(string \<Rightarrow> int) \<Rightarrow> scenario \<Rightarrow> int" where
  "Scenario_hash_old h sc = h (character_string_old (character_types sc) ''|'')"

section \<open>The first version of IsOfType\<close>

text \<open>
  The top-level \<^verbatim>\<open>puzzle_generator.py\<close> tests \<^verbatim>\<open>isinstance(scenario.character_types[name],
  claimed_character_type)\<close>. The first argument is a class object, so the classes in play
  are modelled with their method resolution orders: \<^verbatim>\<open>isinstance(obj, cls)\<close> holds when
  \<open>cls\<close> is in the resolution order of the type of \<open>obj\<close>, and the type of every class
  object here is \<^verbatim>\<open>type\<close>.
\<close>

datatype py_class = class_object | class_type | class_Character | class_of identity

fun mro :: "py_class \<Rightarrow> py_class list" where
  "mro class_object = [class_object]"
| "mro class_type = [class_type, class_object]"
| "mro class_Character = [class_Character, class_object]"
| "mro (class_of k) = [class_of k, class_Character, class_object]"

definition type_of_class :: "py_class \<Rightarrow> py_class" where
  "type_of_class c = class_type"

definition isinstance :: "py_class \<Rightarrow> py_class \<Rightarrow> bool" where
  "isinstance obj cls = List.member (mro (type_of_class obj)) cls"

definition IsOfType_evaluate_truth_old :: "string \<Rightarrow> identity \<Rightarrow> scenario \<Rightarrow> error + bool" where
  "IsOfType_evaluate_truth_old target_name claimed_character_type sc =
     (case map_of (character_types sc) target_name of
        None \<Rightarrow> Inl (CharacterIdentifierError target_name)
      | Some t \<Rightarrow> Inr (isinstance (class_of t) (class_of claimed_character_type)))"

section \<open>Generating the scenarios\<close>

text \<open>\<^verbatim>\<open>itertools.product(xs, repeat=n)\<close>: the leftmost position varies slowest.\<close>

definition itertools_product :: "'a list \<Rightarrow> nat \<Rightarrow> 'a list list" where
  "itertools_product xs repeat = product_lists (replicate repeat xs)"

text \<open>
  The loop of \<^verbatim>\<open>Puzzle._generate_scenario\<close> over the character names, with its index \<open>i\<close>,
  its \<open>monk_count\<close> and the dict under construction. The bound is tested inside the loop,
  after the assignment.
\<close>

fun generate_scenario_loop ::
  "int \<Rightarrow> identity list \<Rightarrow> string list \<Rightarrow> nat \<Rightarrow> int \<Rightarrow> (string \<times> identity) list
     \<Rightarrow> error + (string \<times> identity) list" where
  "generate_scenario_loop mx identity_ordering [] i monk_count cts = Inr cts"
| "generate_scenario_loop mx identity_ordering (name # names) i monk_count cts =
     (if i \<ge> length identity_ordering then Inl IndexError
      else (let monk_count' = (if identity_ordering ! i = Monk then monk_count + 1 else monk_count);
                cts' = dict_set cts name (identity_ordering ! i)
            in if monk_count' > mx then Inl (TooManyMonksError monk_count')
               else generate_scenario_loop mx identity_ordering names (i + 1) monk_count' cts'))"

definition generate_scenario :: "puzzle \<Rightarrow> identity list \<Rightarrow> error + scenario" where
  "generate_scenario p identity_ordering =
     (case generate_scenario_loop (max_num_monks p) identity_ordering (character_names p) 0 0 [] of
        Inl e \<Rightarrow> Inl e
      | Inr cts \<Rightarrow> Inr (Scenario cts))"

text \<open>
  The loop of \<^verbatim>\<open>Puzzle._generate_scenarios\<close>: only \<open>TooManyMonksError\<close> is caught, and the
  candidate is then skipped.
\<close>

fun generate_scenarios_loop ::
  "puzzle \<Rightarrow> identity list list \<Rightarrow> scenario list \<Rightarrow> error + scenario list" where
  "generate_scenarios_loop p [] scs = Inr scs"
| "generate_scenarios_loop p (identity_ordering # rest) scs =
     (case generate_scenario p identity_ordering of
        Inl (TooManyMonksError k) \<Rightarrow> generate_scenarios_loop p rest scs
      | Inl e \<Rightarrow> Inl e
      | Inr sc \<Rightarrow> generate_scenarios_loop p rest (scs @ [sc]))"

text \<open>
  \<^verbatim>\<open>Puzzle._generate_scenarios\<close> of the package. \<open>pcs\<close> is the order in which the set
  \<^verbatim>\<open>POSSIBLE_CHARACTERS\<close> is iterated, which Python leaves open.
\<close>

definition generate_scenarios :: "identity list \<Rightarrow> puzzle \<Rightarrow> error + puzzle" where
  "generate_scenarios pcs p =
     (let possible_characters = (if max_num_monks p = 0 then remove1 Monk pcs else pcs)
      in case generate_scenarios_loop p (itertools_product possible_characters (num_characters p)) [] of
           Inl e \<Rightarrow> Inl e
         | Inr scs \<Rightarrow> Inr (p\<lparr>scenarios := scs\<rparr>))"

text \<open>
  The top-level \<^verbatim>\<open>puzzle_generator.py\<close>: no \<^verbatim>\<open>allow_monks\<close> flag, and the product always runs
  over the list \<^verbatim>\<open>[Knight, Knave, Monk]\<close>.
\<close>

definition calculate_max_num_monks_old :: "nat \<Rightarrow> int" where
  "calculate_max_num_monks_old n =
     (let max_num_monks = int n div 2
      in if real_of_int max_num_monks = real n / 2 then max_num_monks - 1 else max_num_monks)"

definition Puzzle_old :: "(string \<times> statement list) list \<Rightarrow> puzzle" where
  "Puzzle_old character_names_and_statements =
     \<lparr>is_solved = False,
      scenarios = [],
      character_names = map fst character_names_and_statements,
      character_statements =
        fold (\<lambda>(character_name, statements) d. dict_set d character_name statements)
          character_names_and_statements [],
      max_num_monks =
        calculate_max_num_monks_old (length (map fst character_names_and_statements))\<rparr>"

definition generate_scenarios_old :: "puzzle \<Rightarrow> error + puzzle" where
  "generate_scenarios_old p =
     (case generate_scenarios_loop p
             (itertools_product [Knight, Knave, Monk] (num_characters p)) [] of
        Inl e \<Rightarrow> Inl e
      | Inr scs \<Rightarrow> Inr (p\<lparr>scenarios := scs\<rparr>))"

section \<open>Solving a puzzle\<close>

text \<open>
  The methods of \<^verbatim>\<open>Puzzle\<close> that solve it, as functions from the puzzle to the answer and the
  updated puzzle. Printing is left out. The \<^verbatim>\<open>functools.lru_cache\<close> decorators memoise an
  answer per puzzle object and arguments: on a puzzle that has just been built every lookup
  misses and the method body runs, which is what these functions compute.
\<close>

definition check_scenario :: "puzzle \<Rightarrow> scenario \<Rightarrow> error + scenario" where
  "check_scenario p sc =
     (case check_consistency p sc of Inl e \<Rightarrow> Inl e | Inr (r, sc') \<Rightarrow> Inr sc')"

fun check_scenarios_loop :: "puzzle \<Rightarrow> scenario list \<Rightarrow> error + scenario list" where
  "check_scenarios_loop p [] = Inr []"
| "check_scenarios_loop p (sc # rest) =
     (case check_scenario p sc of
        Inl e \<Rightarrow> Inl e
      | Inr sc' \<Rightarrow>
          (case check_scenarios_loop p rest of Inl e \<Rightarrow> Inl e | Inr rest' \<Rightarrow> Inr (sc' # rest')))"

definition generate_and_check_scenarios :: "identity list \<Rightarrow> puzzle \<Rightarrow> error + puzzle" where
  "generate_and_check_scenarios pcs p =
     (case (if length (scenarios p) = 0 then generate_scenarios pcs p else Inr p) of
        Inl e \<Rightarrow> Inl e
      | Inr p1 \<Rightarrow>
          (case check_scenarios_loop p1 (scenarios p1) of
             Inl e \<Rightarrow> Inl e
           | Inr scs \<Rightarrow> Inr (p1\<lparr>scenarios := scs, is_solved := True\<rparr>)))"

text \<open>
  A Python \<^verbatim>\<open>set\<close> of scenarios, kept as a list: \<^verbatim>\<open>ret.add(x)\<close> compares \<open>x\<close> by
  \<^verbatim>\<open>__eq__\<close> with the members whose hash equals its own, and stores it when none is equal.
\<close>

fun set_add :: "(string \<Rightarrow> int) \<Rightarrow> scenario list \<Rightarrow> scenario \<Rightarrow> error + scenario list" where
  "set_add h [] x = (case Scenario_hash h x of Inl e \<Rightarrow> Inl e | Inr hx \<Rightarrow> Inr [x])"
| "set_add h (y # ys) x =
     (case Scenario_hash h x of
        Inl e \<Rightarrow> Inl e
      | Inr hx \<Rightarrow>
          (case (if Scenario_hash h y = Inr hx then Scenario_eq y x else Inr False) of
             Inl e \<Rightarrow> Inl e
           | Inr same \<Rightarrow>
               (if same then Inr (y # ys)
                else (case set_add h ys x of Inl e \<Rightarrow> Inl e | Inr ys' \<Rightarrow> Inr (y # ys')))))"

fun consistent_scenario_loop ::
  "(string \<Rightarrow> int) \<Rightarrow> scenario list \<Rightarrow> scenario list \<Rightarrow> error + scenario list" where
  "consistent_scenario_loop h [] ret = Inr ret"
| "consistent_scenario_loop h (sc # rest) ret =
     (case result sc of
        None \<Rightarrow> Inl TypeError
      | Some r \<Rightarrow>
          (if fst r = True
           then (case set_add h ret sc of
                   Inl e \<Rightarrow> Inl e
                 | Inr ret' \<Rightarrow> consistent_scenario_loop h rest ret')
           else consistent_scenario_loop h rest ret))"

definition get_consistent_scenario_set ::
  "(string \<Rightarrow> int) \<Rightarrow> puzzle \<Rightarrow> error + scenario list" where
  "get_consistent_scenario_set h p = consistent_scenario_loop h (scenarios p) []"

definition get_solution_count ::
  "(string \<Rightarrow> int) \<Rightarrow> identity list \<Rightarrow> puzzle \<Rightarrow> error + (nat \<times> puzzle)" where
  "get_solution_count h pcs p =
     (case (if \<not> is_solved p then generate_and_check_scenarios pcs p else Inr p) of
        Inl e \<Rightarrow> Inl e
      | Inr p1 \<Rightarrow>
          (case get_consistent_scenario_set h p1 of
             Inl e \<Rightarrow> Inl e
           | Inr ret \<Rightarrow> Inr (length ret, p1)))"

text \<open>\<^verbatim>\<open>and\<close> does not evaluate its right operand when the left one is false.\<close>

definition is_valid_puzzle ::
  "(string \<Rightarrow> int) \<Rightarrow> identity list \<Rightarrow> puzzle \<Rightarrow> error + (bool \<times> puzzle)" where
  "is_valid_puzzle h pcs p =
     (if CHARACTER_COUNT_BOUND ! 0 \<le> int (num_characters p)
         \<and> int (num_characters p) \<le> CHARACTER_COUNT_BOUND ! 1
      then (case get_solution_count h pcs p of
              Inl e \<Rightarrow> Inl e
            | Inr (n, p1) \<Rightarrow>
                Inr (SOLUTION_COUNT_BOUND ! 0 \<le> int n \<and> int n \<le> SOLUTION_COUNT_BOUND ! 1, p1))
      else Inr (False, p))"

fun has_maximum_monks_loop :: "int \<Rightarrow> scenario list \<Rightarrow> bool" where
  "has_maximum_monks_loop mx [] = False"
| "has_maximum_monks_loop mx (consistent_scenario # rest) =
     (let monks = int (count_list (map snd (character_types consistent_scenario)) Monk)
      in if monks = mx then True else has_maximum_monks_loop mx rest)"

definition has_maximum_monks ::
  "(string \<Rightarrow> int) \<Rightarrow> identity list \<Rightarrow> puzzle \<Rightarrow> error + (bool \<times> puzzle)" where
  "has_maximum_monks h pcs p =
     (case (if \<not> is_solved p then generate_and_check_scenarios pcs p else Inr p) of
        Inl e \<Rightarrow> Inl e
      | Inr p1 \<Rightarrow>
          (case get_consistent_scenario_set h p1 of
             Inl e \<Rightarrow> Inl e
           | Inr ret \<Rightarrow> Inr (has_maximum_monks_loop (max_num_monks p1) ret, p1)))"

section \<open>Names a statement refers to\<close>

text \<open>
  The character names that occur in a statement, in the order of the statement's text.
\<close>

fun referenced_names :: "statement \<Rightarrow> string list" where
  "referenced_names TrueStatement = []"
| "referenced_names (ConjunctiveStatement sts) = concat (map referenced_names sts)"
| "referenced_names (DisjunctiveStatement sts) = concat (map referenced_names sts)"
| "referenced_names (NotStatement st) = referenced_names st"
| "referenced_names (IsOfType target_name claimed_character_type) = [target_name]"
| "referenced_names (IsSameAs target_1_name target_2_name) = [target_1_name, target_2_name]"
| "referenced_names (Honesty target_1_name target_2_name claimed_relation) =
     [target_1_name, target_2_name]"
| "referenced_names (CountOfType character_type claimed_count claimed_relation) = []"
| "referenced_names (IfConnective a b) = referenced_names a @ referenced_names b"
| "referenced_names (ExclusiveOrConnective a b) = referenced_names a @ referenced_names b"
| "referenced_names (SamenessCount claimed_count claimed_relation disjunctive_statement) =
     referenced_names disjunctive_statement"

text \<open>
  The lookups that \<^verbatim>\<open>evaluate_truth\<close> performs: \<open>reaches n st sc\<close> holds when the evaluation
  of \<open>st\<close> in \<open>sc\<close> gets to look up the name \<open>n\<close>. Evaluation runs from left to right and
  stops at the first lookup that fails; a connective evaluates its second operand after the
  first; the loop of a combiner goes on to the next member only when the member before it
  has evaluated to the combiner's default value.
\<close>

fun reaches :: "string \<Rightarrow> statement \<Rightarrow> scenario \<Rightarrow> bool"
  and reaches_loop :: "string \<Rightarrow> combiner \<Rightarrow> statement list \<Rightarrow> scenario \<Rightarrow> bool" where
  "reaches n TrueStatement sc = False"
| "reaches n (ConjunctiveStatement sts) sc = reaches_loop n Conjunctive sts sc"
| "reaches n (DisjunctiveStatement sts) sc = reaches_loop n Disjunctive sts sc"
| "reaches n (NotStatement st) sc = reaches n st sc"
| "reaches n (IsOfType target_name claimed_character_type) sc = (n = target_name)"
| "reaches n (IsSameAs target_1_name target_2_name) sc =
     (n = target_1_name
      \<or> (n = target_2_name \<and> map_of (character_types sc) target_1_name \<noteq> None))"
| "reaches n (Honesty target_1_name target_2_name claimed_relation) sc =
     (n = target_1_name
      \<or> (n = target_2_name \<and> map_of (character_types sc) target_1_name \<noteq> None))"
| "reaches n (CountOfType character_type claimed_count claimed_relation) sc = False"
| "reaches n (IfConnective a b) sc =
     (reaches n a sc \<or> (\<not> isl (evaluate_truth a sc) \<and> reaches n b sc))"
| "reaches n (ExclusiveOrConnective a b) sc =
     (reaches n a sc \<or> (\<not> isl (evaluate_truth a sc) \<and> reaches n b sc))"
| "reaches n (SamenessCount claimed_count claimed_relation disjunctive_statement) sc =
     reaches n disjunctive_statement sc"
| "reaches_loop n c [] sc = False"
| "reaches_loop n c (st # sts) sc =
     (reaches n st sc
      \<or> (evaluate_truth st sc = Inr (default_value c) \<and> reaches_loop n c sts sc))"

section \<open>Basic facts about puzzles\<close>

lemma max_num_monks_Puzzle:
  "max_num_monks (Puzzle cns allow) = calculate_max_num_monks (length cns) allow"
  by (simp add: Puzzle_def)

lemma num_characters_Puzzle: "num_characters (Puzzle cns allow) = length cns"
  by (simp add: Puzzle_def num_characters_def)

lemma calculate_max_num_monks_parity:
  "calculate_max_num_monks n True = int n div 2 - (if even n then 1 else 0)"
  unfolding calculate_max_num_monks_def Let_def
  by (auto elim!: evenE oddE simp: field_simps)

lemma calculate_max_num_monks_old_eq:
  "calculate_max_num_monks_old n = calculate_max_num_monks n True"
  by (simp add: calculate_max_num_monks_old_def calculate_max_num_monks_def)

section \<open>The monk bound\<close>

text \<open>
  C7. With Monks allowed, \<open>max_num_monks\<close> is \<open>n div 2\<close>, less one exactly when the number
  \<open>n\<close> of characters is even; the first version of the source computes the same bound; the
  bound is strictly below half the character count; and it is 1, 1, 2, 2, 3 for
  \<open>n = 3, 4, 5, 6, 7\<close>.
\<close>

theorem C7_max_num_monks:
  "max_num_monks (Puzzle cns True)
     = int (num_characters (Puzzle cns True)) div 2
         - (if even (num_characters (Puzzle cns True)) then 1 else 0)
   \<and> max_num_monks (Puzzle_old cns) = max_num_monks (Puzzle cns True)
   \<and> real_of_int (max_num_monks (Puzzle cns True)) < real (num_characters (Puzzle cns True)) / 2
   \<and> map (\<lambda>n. calculate_max_num_monks n True) [3, 4, 5, 6, 7] = [1, 1, 2, 2, 3]
   \<and> map calculate_max_num_monks_old [3, 4, 5, 6, 7] = [1, 1, 2, 2, 3]"
proof -
  let ?n = "length cns"
  have a: "calculate_max_num_monks ?n True = int ?n div 2 - (if even ?n then 1 else 0)"
    by (rule calculate_max_num_monks_parity)
  have b: "real_of_int (calculate_max_num_monks ?n True) < real ?n / 2"
    unfolding a by (auto elim!: evenE oddE)
  have c: "map (\<lambda>n. calculate_max_num_monks n True) [3, 4, 5, 6, 7] = [1, 1, 2, 2, 3]"
    by (simp add: calculate_max_num_monks_parity)
  have d: "map calculate_max_num_monks_old [3, 4, 5, 6, 7] = [1, 1, 2, 2, 3]"
    by (simp add: calculate_max_num_monks_old_eq calculate_max_num_monks_parity)
  have e: "max_num_monks (Puzzle_old cns) = max_num_monks (Puzzle cns True)"
    by (simp add: Puzzle_old_def Puzzle_def calculate_max_num_monks_old_eq)
  show ?thesis
    using a b c d e by (simp add: max_num_monks_Puzzle num_characters_Puzzle)
qed

theorem C7_max_num_monks_witness:
  "max_num_monks (Puzzle [(''A'', []), (''B'', []), (''C'', []), (''D'', [])] True) = 1
   \<and> max_num_monks (Puzzle_old [(''A'', []), (''B'', []), (''C'', []), (''D'', [])]) = 1"
  using C7_max_num_monks [of "[(''A'', []), (''B'', []), (''C'', []), (''D'', [])]"]
  by (simp add: num_characters_Puzzle)

section \<open>Monks are exempt\<close>

lemma check_consistency_loop_Monk:
  "map_of (character_types sc) name = Some Monk \<Longrightarrow>
   check_consistency_loop sc ((name, statements) # rest) = check_consistency_loop sc rest"
  by (simp split: list.splits)

text \<open>
  C2. When the scenario assigns Monk to character \<open>X\<close>, the consistency check of two
  puzzles that differ only in the statements of \<open>X\<close> gives the same result: the same
  boolean, and also the same reason and the same exception.
\<close>

theorem C2_monk_statements_irrelevant:
  assumes "map_of (character_types sc) X = Some Monk"
    and "list_all2 (\<lambda>(n, ss) (n', ss'). n' = n \<and> (n \<noteq> X \<longrightarrow> ss' = ss))
           (character_statements p) (character_statements p')"
  shows "private_check_consistency p' sc = private_check_consistency p sc"
proof -
  have "check_consistency_loop sc ys = check_consistency_loop sc xs"
    if "list_all2 (\<lambda>(n, ss) (n', ss'). n' = n \<and> (n \<noteq> X \<longrightarrow> ss' = ss)) xs ys" for xs ys
    using that
  proof (induction rule: list_all2_induct)
    case Nil
    show ?case by simp
  next
    case (Cons x xs y ys)
    obtain n ss where x: "x = (n, ss)" by (cases x)
    obtain n' ss' where y: "y = (n', ss')" by (cases y)
    from Cons.hyps(1) x y have nn: "n' = n" and ss: "n \<noteq> X \<Longrightarrow> ss' = ss" by auto
    show ?case
    proof (cases "n = X")
      case True
      then show ?thesis
        using assms(1) Cons.IH x y nn by (simp only: check_consistency_loop_Monk)
    next
      case False
      then show ?thesis
        using Cons.IH x y nn ss
        by (simp cong: option.case_cong sum.case_cong if_cong)
    qed
  qed
  then show ?thesis
    using assms(2) by (simp add: private_check_consistency_def)
qed

theorem C2_monk_statements_irrelevant_witness:
  "map_of (character_types (Scenario [(''A'', Monk), (''B'', Knight)])) ''A'' = Some Monk
   \<and> private_check_consistency
       (Puzzle [(''A'', [IsOfType ''B'' Knight, IsOfType ''Z'' Monk]), (''B'', [TrueStatement])] True)
       (Scenario [(''A'', Monk), (''B'', Knight)])
     = private_check_consistency
         (Puzzle [(''A'', [IsOfType ''B'' Knave]), (''B'', [TrueStatement])] True)
         (Scenario [(''A'', Monk), (''B'', Knight)])"
proof -
  have h1: "map_of (character_types (Scenario [(''A'', Monk), (''B'', Knight)])) ''A'' = Some Monk"
    by (simp add: Scenario_def)
  have h2: "list_all2 (\<lambda>(n, ss) (n', ss'). n' = n \<and> (n \<noteq> ''A'' \<longrightarrow> ss' = ss))
      (character_statements (Puzzle [(''A'', [IsOfType ''B'' Knave]), (''B'', [TrueStatement])] True))
      (character_statements
         (Puzzle [(''A'', [IsOfType ''B'' Knight, IsOfType ''Z'' Monk]), (''B'', [TrueStatement])] True))"
    by (simp add: Puzzle_def)
  show ?thesis
    using h1 C2_monk_statements_irrelevant [OF h1 h2] by simp
qed

section \<open>Several statements of one character\<close>

text \<open>
  C1. A character with more than one statement is checked through the single conjunction of
  all of them, to which the projection of the speaker's identity is applied once. So with a
  true statement \<open>t\<close> and a false statement \<open>f\<close>, the statements \<open>[t, f]\<close> are consistent for
  a Knave, and the check goes on to the next character, and they are inconsistent for a
  Knight, and the check stops with the reason.
\<close>

theorem C1_statements_joined_once:
  "(1 < length statements \<and> map_of (character_types sc) name = Some k \<longrightarrow>
      check_consistency_loop sc ((name, statements) # rest)
        = (case evaluate_consistency (ConjunctiveStatement statements) k sc of
             Inl e \<Rightarrow> Inl e
           | Inr c \<Rightarrow>
               if c then check_consistency_loop sc rest
               else Inr (False,
                      Some (name @ '' should not have said '' @ [CHR 0x22]
                              @ str_statement (ConjunctiveStatement statements)
                              @ [CHR 0x22] @ ''.''))))
   \<and> (evaluate_truth t sc = Inr True \<and> evaluate_truth f sc = Inr False \<longrightarrow>
        evaluate_consistency (ConjunctiveStatement [t, f]) Knave sc = Inr True
        \<and> evaluate_consistency (ConjunctiveStatement [t, f]) Knight sc = Inr False)
   \<and> (evaluate_truth t sc = Inr True \<and> evaluate_truth f sc = Inr False
        \<and> map_of (character_types sc) v = Some Knave \<longrightarrow>
        check_consistency_loop sc ((v, [t, f]) # rest) = check_consistency_loop sc rest)
   \<and> (evaluate_truth t sc = Inr True \<and> evaluate_truth f sc = Inr False
        \<and> map_of (character_types sc) g = Some Knight \<longrightarrow>
        check_consistency_loop sc ((g, [t, f]) # rest)
          = Inr (False,
              Some (g @ '' should not have said '' @ [CHR 0x22]
                      @ str_statement (ConjunctiveStatement [t, f]) @ [CHR 0x22] @ ''.'')))"
proof -
  have f1: "check_consistency_loop sc ((name, statements) # rest)
        = (case evaluate_consistency (ConjunctiveStatement statements) k sc of
             Inl e \<Rightarrow> Inl e
           | Inr c \<Rightarrow>
               if c then check_consistency_loop sc rest
               else Inr (False,
                      Some (name @ '' should not have said '' @ [CHR 0x22]
                              @ str_statement (ConjunctiveStatement statements)
                              @ [CHR 0x22] @ ''.'')))"
    if l: "1 < length statements" and m: "map_of (character_types sc) name = Some k"
    for name statements k
  proof -
    obtain s1 r where r: "statements = s1 # r"
      using l by (cases statements) auto
    obtain s2 ss where "r = s2 # ss"
      using l r by (cases r) auto
    with r have st: "statements = s1 # s2 # ss" by simp
    show ?thesis
      unfolding st using m by (simp split: sum.splits)
  qed
  have f2: "evaluate_consistency (ConjunctiveStatement [t, f]) Knave sc = Inr True"
    and f3: "evaluate_consistency (ConjunctiveStatement [t, f]) Knight sc = Inr False"
    if "evaluate_truth t sc = Inr True" "evaluate_truth f sc = Inr False"
    using that by simp_all
  have f4: "check_consistency_loop sc ((v, [t, f]) # rest) = check_consistency_loop sc rest"
    if "evaluate_truth t sc = Inr True" "evaluate_truth f sc = Inr False"
      "map_of (character_types sc) v = Some Knave"
    using f1 [of "[t, f]" v Knave] f2 that by simp
  have f5: "check_consistency_loop sc ((g, [t, f]) # rest)
          = Inr (False,
              Some (g @ '' should not have said '' @ [CHR 0x22]
                      @ str_statement (ConjunctiveStatement [t, f]) @ [CHR 0x22] @ ''.''))"
    if "evaluate_truth t sc = Inr True" "evaluate_truth f sc = Inr False"
      "map_of (character_types sc) g = Some Knight"
    using f1 [of "[t, f]" g Knight] f3 that by simp
  show ?thesis
    using f1 f2 f3 f4 f5 by blast
qed

theorem C1_statements_joined_once_witness:
  "evaluate_consistency (ConjunctiveStatement [TrueStatement, NotStatement TrueStatement]) Knave
     (Scenario [(''A'', Knave)]) = Inr True
   \<and> evaluate_consistency (ConjunctiveStatement [TrueStatement, NotStatement TrueStatement]) Knight
     (Scenario [(''A'', Knight)]) = Inr False
   \<and> check_consistency_loop (Scenario [(''A'', Knave)])
       [(''A'', [TrueStatement, NotStatement TrueStatement])]
     = (case evaluate_consistency
               (ConjunctiveStatement [TrueStatement, NotStatement TrueStatement]) Knave
               (Scenario [(''A'', Knave)]) of
          Inl e \<Rightarrow> Inl e
        | Inr c \<Rightarrow> Inr (True, None))
   \<and> private_check_consistency
     (Puzzle [(''A'', [TrueStatement, NotStatement TrueStatement])] True)
     (Scenario [(''A'', Knave)]) = Inr (True, None)
   \<and> private_check_consistency
     (Puzzle [(''A'', [TrueStatement, NotStatement TrueStatement])] True)
     (Scenario [(''A'', Knight)])
       = Inr (False, Some (''A should not have said '' @ [CHR 0x22]
                        @ ''(2+2=4.) AND (NOT(2+2=4.))'' @ [CHR 0x22] @ ''.''))"
proof -
  let ?v = "Scenario [(''A'', Knave)]" and ?g = "Scenario [(''A'', Knight)]"
  have hv: "map_of (character_types ?v) ''A'' = Some Knave" by (simp add: Scenario_def)
  have hg: "map_of (character_types ?g) ''A'' = Some Knight" by (simp add: Scenario_def)
  have t: "evaluate_truth TrueStatement sc = Inr True" for sc by simp
  have f: "evaluate_truth (NotStatement TrueStatement) sc = Inr False" for sc by simp
  have p: "character_statements (Puzzle [(n, ss)] True) = [(n, ss)]" for n ss
    by (simp add: Puzzle_def)
  have a: "check_consistency_loop ?v [(''A'', [TrueStatement, NotStatement TrueStatement])]
      = check_consistency_loop ?v []"
    using C1_statements_joined_once
      [where t = TrueStatement and f = "NotStatement TrueStatement" and sc = ?v
        and v = "''A''" and rest = "[]"] hv t f
    by blast
  have b: "check_consistency_loop ?g [(''A'', [TrueStatement, NotStatement TrueStatement])]
      = Inr (False,
              Some (''A'' @ '' should not have said '' @ [CHR 0x22]
                      @ str_statement (ConjunctiveStatement [TrueStatement, NotStatement TrueStatement])
                      @ [CHR 0x22] @ ''.''))"
    using C1_statements_joined_once
      [where t = TrueStatement and f = "NotStatement TrueStatement" and sc = ?g
        and g = "''A''" and rest = "[]"] hg t f
    by blast
  have l: "1 < length [TrueStatement, NotStatement TrueStatement]" by simp
  have j: "check_consistency_loop ?v [(''A'', [TrueStatement, NotStatement TrueStatement])]
     = (case evaluate_consistency
               (ConjunctiveStatement [TrueStatement, NotStatement TrueStatement]) Knave ?v of
          Inl e \<Rightarrow> Inl e
        | Inr c \<Rightarrow> Inr (True, None))"
    using C1_statements_joined_once
      [where statements = "[TrueStatement, NotStatement TrueStatement]" and sc = ?v
        and name = "''A''" and k = Knave and rest = "[]"] l hv
    by (simp del: evaluate_consistency.simps check_consistency_loop.simps(2)
        cong: sum.case_cong)
  have cv: "evaluate_consistency (ConjunctiveStatement [TrueStatement, NotStatement TrueStatement])
      Knave ?v = Inr True"
    using C1_statements_joined_once
      [where t = TrueStatement and f = "NotStatement TrueStatement" and sc = ?v] t f
    by blast
  have cg: "evaluate_consistency (ConjunctiveStatement [TrueStatement, NotStatement TrueStatement])
      Knight ?g = Inr False"
    using C1_statements_joined_once
      [where t = TrueStatement and f = "NotStatement TrueStatement" and sc = ?g] t f
    by blast
  show ?thesis
    unfolding private_check_consistency_def p a b using cv cg j by simp
qed

section \<open>Unknown character names\<close>

lemma check_consistency_loop_append:
  "check_consistency_loop sc before = Inr (True, None) \<Longrightarrow>
   check_consistency_loop sc (before @ rest) = check_consistency_loop sc rest"
proof (induction before)
  case Nil
  show ?case by simp
next
  case (Cons x before)
  obtain n ss where x: "x = (n, ss)" by (cases x)
  from Cons.prems show ?case
    unfolding x
    by (auto simp del: evaluate_consistency.simps split: option.splits sum.splits if_splits
        intro: Cons.IH)
qed

lemma lookup_two:
  "lookup sc [a, b] =
     (case map_of (character_types sc) a of
        None \<Rightarrow> Inl (CharacterIdentifierError a)
      | Some x \<Rightarrow>
          (case map_of (character_types sc) b of
             None \<Rightarrow> Inl (CharacterIdentifierError b)
           | Some y \<Rightarrow> Inr [x, y]))"
  by (simp split: option.splits)

lemma for_each_statement_None: "for_each_statement c t = None \<longleftrightarrow> t = default_value c"
  by (cases c) auto

lemma reaches_raises:
  "reaches n st sc \<Longrightarrow> map_of (character_types sc) n = None \<Longrightarrow>
     evaluate_truth st sc = Inl (CharacterIdentifierError n)"
  "reaches_loop n c sts sc \<Longrightarrow> map_of (character_types sc) n = None \<Longrightarrow>
     combiner_loop c sts sc = Inl (CharacterIdentifierError n)"
proof (induction st sc and c sts sc rule: evaluate_truth_combiner_loop.induct)
  case (7 target_1_name target_2_name claimed_relation sc)
  then show ?case
    by (auto simp: lookup_two simp del: lookup.simps split: option.splits)
next
  case (9 a b sc)
  then show ?case
    by (cases "evaluate_truth a sc") auto
next
  case (10 a b sc)
  then show ?case
    by (cases "evaluate_truth a sc") auto
next
  case (13 c st sts sc)
  show ?case
  proof (cases "reaches n st sc")
    case True
    with "13.IH"(1) "13.prems" show ?thesis by simp
  next
    case False
    with "13.prems" have d: "evaluate_truth st sc = Inr (default_value c)"
      and l: "reaches_loop n c sts sc"
      by auto
    have "for_each_statement c (default_value c) = None"
      by (simp add: for_each_statement_None)
    from "13.IH"(2) [OF d this l "13.prems"(2)] d this show ?thesis by simp
  qed
qed (auto split: option.splits)

lemma raises_reaches:
  "evaluate_truth st sc = Inl e \<Longrightarrow>
     \<exists>n. e = CharacterIdentifierError n \<and> reaches n st sc \<and> map_of (character_types sc) n = None"
  "combiner_loop c sts sc = Inl e \<Longrightarrow>
     \<exists>n. e = CharacterIdentifierError n \<and> reaches_loop n c sts sc
         \<and> map_of (character_types sc) n = None"
proof (induction st sc and c sts sc arbitrary: e and e rule: evaluate_truth_combiner_loop.induct)
  case (7 target_1_name target_2_name claimed_relation sc)
  then show ?case
    by (auto simp: lookup_two simp del: lookup.simps split: option.splits)
next
  case (9 a b sc)
  then show ?case
    by (cases "evaluate_truth a sc"; cases "evaluate_truth b sc") auto
next
  case (10 a b sc)
  then show ?case
    by (cases "evaluate_truth a sc"; cases "evaluate_truth b sc") auto
next
  case (13 c st sts sc)
  show ?case
  proof (cases "evaluate_truth st sc")
    case (Inl a)
    with "13.prems" have "a = e" by simp
    with Inl "13.IH"(1) show ?thesis by auto
  next
    case (Inr truth)
    with "13.prems" have n: "for_each_statement c truth = None"
      and l: "combiner_loop c sts sc = Inl e"
      by (auto split: option.splits)
    from n have "truth = default_value c" by (simp add: for_each_statement_None)
    with "13.IH"(2) [OF Inr n l] Inr show ?thesis by auto
  qed
qed (auto split: sum.splits option.splits if_splits)

lemma reaches_referenced:
  "reaches n st sc \<Longrightarrow> n \<in> set (referenced_names st)"
  "reaches_loop n c sts sc \<Longrightarrow> n \<in> set (concat (map referenced_names sts))"
  by (induction n st sc and n c sts sc rule: reaches_reaches_loop.induct) auto

lemma combiner_loop_decided:
  "\<forall>s\<in>set pre. evaluate_truth s sc = Inr (default_value c) \<Longrightarrow>
   evaluate_truth d sc = Inr (\<not> default_value c) \<Longrightarrow>
   combiner_loop c (pre @ d # post) sc = Inr (\<not> default_value c)"
  by (induction pre) (cases c; auto)+

lemma check_consistency_loop_stops:
  "check_consistency_loop sc before = Inr (False, r) \<Longrightarrow>
   check_consistency_loop sc (before @ rest) = Inr (False, r)"
proof (induction before)
  case Nil
  then show ?case by simp
next
  case (Cons x before)
  obtain n ss where x: "x = (n, ss)" by (cases x)
  from Cons.prems show ?case
    unfolding x
    by (auto simp del: evaluate_consistency.simps split: option.splits sum.splits if_splits
        intro: Cons.IH)
qed


text \<open>
  C4 as the code has it. Evaluating a statement raises exactly when the evaluation reaches
  the lookup of a name that the scenario does not assign, and the error is the
  \<open>CharacterIdentifierError\<close> of that name, which is one of the names the statement refers
  to. For a speaker who is a Knight or a Knave the projection raises the same error, and the
  consistency check raises it when every earlier speaker is consistent. No error is raised
  where the lookup is not reached: a Monk's statements are not evaluated; a conjunction with
  a false member, or a disjunction with a true member, does not evaluate the members after
  it; and the check stops at the first inconsistent speaker.
\<close>

theorem C4_unknown_character_propagates:
  "(evaluate_truth st sc = Inl e \<longleftrightarrow>
      (\<exists>n. e = CharacterIdentifierError n \<and> reaches n st sc
           \<and> map_of (character_types sc) n = None))
   \<and> (reaches n st sc \<longrightarrow> n \<in> set (referenced_names st))
   \<and> (k \<noteq> Monk \<and> evaluate_truth st sc = Inl e \<longrightarrow> evaluate_consistency st k sc = Inl e)
   \<and> (k \<noteq> Monk \<and> map_of (character_types sc) speaker = Some k
        \<and> check_consistency_loop sc before = Inr (True, None)
        \<and> evaluate_truth (ConjunctiveStatement statements) sc = Inl e
        \<longrightarrow> check_consistency_loop sc (before @ (speaker, statements) # after) = Inl e)
   \<and> evaluate_consistency st Monk sc = Inr True
   \<and> (map_of (character_types sc) monk = Some Monk
        \<longrightarrow> check_consistency_loop sc ((monk, statements) # after)
             = check_consistency_loop sc after)
   \<and> ((\<forall>s\<in>set pre. evaluate_truth s sc = Inr True) \<and> evaluate_truth d sc = Inr False
        \<longrightarrow> evaluate_truth (ConjunctiveStatement (pre @ d # post)) sc = Inr False)
   \<and> ((\<forall>s\<in>set pre. evaluate_truth s sc = Inr False) \<and> evaluate_truth d sc = Inr True
        \<longrightarrow> evaluate_truth (DisjunctiveStatement (pre @ d # post)) sc = Inr True)
   \<and> (check_consistency_loop sc before = Inr (False, r)
        \<longrightarrow> check_consistency_loop sc (before @ after) = Inr (False, r))"
proof -
  have a: "evaluate_truth st sc = Inl e \<longleftrightarrow>
      (\<exists>n. e = CharacterIdentifierError n \<and> reaches n st sc
           \<and> map_of (character_types sc) n = None)"
    using raises_reaches(1) [of st sc e] reaches_raises(1) [of _ st sc] by blast
  have b: "reaches n st sc \<longrightarrow> n \<in> set (referenced_names st)"
    using reaches_referenced(1) by blast
  have c: "evaluate_consistency s k sc = Inl e" if "k \<noteq> Monk" "evaluate_truth s sc = Inl e" for s
    using that by simp
  have d: "check_consistency_loop sc (before @ (speaker, statements) # after) = Inl e"
    if k: "k \<noteq> Monk" and sp: "map_of (character_types sc) speaker = Some k"
      and bf: "check_consistency_loop sc before = Inr (True, None)"
      and ev: "evaluate_truth (ConjunctiveStatement statements) sc = Inl e"
  proof -
    have step: "check_consistency_loop sc ((speaker, statements) # after) = Inl e"
    proof (cases statements)
      case Nil
      with ev show ?thesis by simp
    next
      case (Cons s1 r)
      show ?thesis
      proof (cases r)
        case Nil
        with Cons ev have "evaluate_truth s1 sc = Inl e"
          by (auto split: sum.splits option.splits)
        from c [OF k this] Cons Nil sp show ?thesis
          by (simp del: evaluate_consistency.simps)
      next
        case (Cons s2 r')
        with \<open>statements = s1 # r\<close> sp c [OF k ev] show ?thesis
          by (simp del: evaluate_consistency.simps evaluate_truth.simps)
      qed
    qed
    with check_consistency_loop_append [OF bf] show ?thesis by simp
  qed
  have m: "evaluate_consistency st Monk sc = Inr True"
    by simp
  have f: "map_of (character_types sc) monk = Some Monk
        \<longrightarrow> check_consistency_loop sc ((monk, statements) # after)
             = check_consistency_loop sc after"
    using check_consistency_loop_Monk by blast
  have g: "evaluate_truth (ConjunctiveStatement (pre @ d # post)) sc = Inr False"
    if "\<forall>s\<in>set pre. evaluate_truth s sc = Inr True" "evaluate_truth d sc = Inr False"
    using combiner_loop_decided [of pre sc Conjunctive d post] that by simp
  have h: "evaluate_truth (DisjunctiveStatement (pre @ d # post)) sc = Inr True"
    if "\<forall>s\<in>set pre. evaluate_truth s sc = Inr False" "evaluate_truth d sc = Inr True"
    using combiner_loop_decided [of pre sc Disjunctive d post] that by simp
  have i: "check_consistency_loop sc before = Inr (False, r)
        \<longrightarrow> check_consistency_loop sc (before @ after) = Inr (False, r)"
    using check_consistency_loop_stops by blast
  show ?thesis
    using a b c d m f g h i by blast
qed


theorem C4_unknown_character_propagates_witness:
  "evaluate_truth
     (IfConnective (SamenessCount_init [Knight, Knave, Monk] 1 op_le) (IsOfType ''Z'' Knight))
     (Scenario [(''A'', Knight), (''B'', Knave), (''C'', Monk)])
     = Inl (CharacterIdentifierError ''Z'')
   \<and> evaluate_consistency (NotStatement (ConjunctiveStatement [IsOfType ''Z'' Knight])) Knave
       (Scenario [(''A'', Knight), (''B'', Knave), (''C'', Monk)])
     = Inl (CharacterIdentifierError ''Z'')
   \<and> private_check_consistency
       (Puzzle [(''A'', [TrueStatement]),
                (''B'', [TrueStatement, NotStatement (ConjunctiveStatement [IsOfType ''Z'' Knight])])]
          True)
       (Scenario [(''A'', Knight), (''B'', Knave), (''C'', Monk)])
     = Inl (CharacterIdentifierError ''Z'')
   \<and> private_check_consistency
       (Puzzle [(''C'', [IsOfType ''Z'' Knight]), (''A'', [TrueStatement])] True)
       (Scenario [(''A'', Knight), (''B'', Knave), (''C'', Monk)])
     = Inr (True, None)
   \<and> evaluate_truth
       (ConjunctiveStatement [TrueStatement, NotStatement TrueStatement, IsOfType ''Z'' Knight])
       (Scenario [(''A'', Knight), (''B'', Knave), (''C'', Monk)])
     = Inr False
   \<and> evaluate_truth
       (DisjunctiveStatement [NotStatement TrueStatement, TrueStatement, IsOfType ''Z'' Knight])
       (Scenario [(''A'', Knight), (''B'', Knave), (''C'', Monk)])
     = Inr True
   \<and> private_check_consistency
       (Puzzle [(''A'', [NotStatement TrueStatement]), (''B'', [IsOfType ''Z'' Knight])] True)
       (Scenario [(''A'', Knight), (''B'', Knave), (''C'', Monk)])
     = Inr (False, Some (''A should not have said '' @ [CHR 0x22] @ ''NOT(2+2=4.)''
                           @ [CHR 0x22] @ ''.''))"
proof -
  let ?sc = "Scenario [(''A'', Knight), (''B'', Knave), (''C'', Monk)]"
  let ?e = "CharacterIdentifierError ''Z''"
  let ?st1 = "IfConnective (SamenessCount_init [Knight, Knave, Monk] 1 op_le) (IsOfType ''Z'' Knight)"
  let ?st2 = "NotStatement (ConjunctiveStatement [IsOfType ''Z'' Knight])"
  note T = C4_unknown_character_propagates
  have z: "map_of (character_types ?sc) ''Z'' = None" by (simp add: Scenario_def)
  have a: "map_of (character_types ?sc) ''A'' = Some Knight" by (simp add: Scenario_def)
  have b: "map_of (character_types ?sc) ''B'' = Some Knave" by (simp add: Scenario_def)
  have c: "map_of (character_types ?sc) ''C'' = Some Monk" by (simp add: Scenario_def)
  have t: "evaluate_truth TrueStatement ?sc = Inr True" by simp
  have f: "evaluate_truth (NotStatement TrueStatement) ?sc = Inr False" by simp
  have p: "character_statements (Puzzle [x, y] True) = [x, y]" if "fst x \<noteq> fst y" for x y
    using that by (cases x; cases y) (simp add: Puzzle_def)
  have r1: "reaches ''Z'' ?st1 ?sc"
    by (simp add: SamenessCount_init_def Scenario_def)
  have r1': "''Z'' \<in> set (referenced_names ?st1)"
    using T [where st = ?st1 and sc = ?sc and n = "''Z''"] r1 by blast
  have e1: "evaluate_truth ?st1 ?sc = Inl ?e"
    using T [where st = ?st1 and sc = ?sc and e = ?e] r1 z by blast
  have r2: "reaches ''Z'' ?st2 ?sc" by simp
  have e2: "evaluate_truth ?st2 ?sc = Inl ?e"
    using T [where st = ?st2 and sc = ?sc and e = ?e] r2 z by blast
  have k: "Knave \<noteq> Monk" by simp
  have c2: "evaluate_consistency ?st2 Knave ?sc = Inl ?e"
    using T [where st = ?st2 and sc = ?sc and e = ?e and k = Knave] k e2 by blast
  have r3: "reaches ''Z'' (ConjunctiveStatement [TrueStatement, ?st2]) ?sc" by simp
  have e3: "evaluate_truth (ConjunctiveStatement [TrueStatement, ?st2]) ?sc = Inl ?e"
    using T [where st = "ConjunctiveStatement [TrueStatement, ?st2]" and sc = ?sc and e = ?e] r3 z
    by blast
  have bf: "check_consistency_loop ?sc [(''A'', [TrueStatement])] = Inr (True, None)"
    using a by simp
  have d: "check_consistency_loop ?sc
      ([(''A'', [TrueStatement])] @ (''B'', [TrueStatement, ?st2]) # []) = Inl ?e"
    using T [where sc = ?sc and e = ?e and k = Knave and speaker = "''B''"
        and before = "[(''A'', [TrueStatement])]" and statements = "[TrueStatement, ?st2]"
        and after = "[]"] k b bf e3
    by blast
  have m: "check_consistency_loop ?sc ((''C'', [IsOfType ''Z'' Knight]) # [(''A'', [TrueStatement])])
      = check_consistency_loop ?sc [(''A'', [TrueStatement])]"
    using T [where sc = ?sc and monk = "''C''" and statements = "[IsOfType ''Z'' Knight]"
        and after = "[(''A'', [TrueStatement])]"] c
    by blast
  have g: "evaluate_truth (ConjunctiveStatement
        ([TrueStatement] @ NotStatement TrueStatement # [IsOfType ''Z'' Knight])) ?sc = Inr False"
    using T [where sc = ?sc and pre = "[TrueStatement]" and d = "NotStatement TrueStatement"
        and post = "[IsOfType ''Z'' Knight]"] t f
    by simp
  have h: "evaluate_truth (DisjunctiveStatement
        ([NotStatement TrueStatement] @ TrueStatement # [IsOfType ''Z'' Knight])) ?sc = Inr True"
    using T [where sc = ?sc and pre = "[NotStatement TrueStatement]" and d = TrueStatement
        and post = "[IsOfType ''Z'' Knight]"] t f
    by simp
  have s0: "check_consistency_loop ?sc [(''A'', [NotStatement TrueStatement])]
      = Inr (False, Some (''A should not have said '' @ [CHR 0x22] @ ''NOT(2+2=4.)''
                           @ [CHR 0x22] @ ''.''))"
    using a by simp
  have s: "check_consistency_loop ?sc
      ([(''A'', [NotStatement TrueStatement])] @ [(''B'', [IsOfType ''Z'' Knight])])
      = Inr (False, Some (''A should not have said '' @ [CHR 0x22] @ ''NOT(2+2=4.)''
                           @ [CHR 0x22] @ ''.''))"
    using T [where sc = ?sc and before = "[(''A'', [NotStatement TrueStatement])]"
        and after = "[(''B'', [IsOfType ''Z'' Knight])]"] s0
    by blast
  show ?thesis
    using e1 c2 d m bf g h s
    by (simp add: private_check_consistency_def p del: check_consistency_loop.simps
        evaluate_truth.simps evaluate_consistency.simps)
qed

text \<open>
  C4 as stated fails: a Monk's statement is never evaluated, and a combiner that is decided
  by an earlier member does not evaluate the later ones, so a missing name goes unnoticed.
\<close>

theorem C4_counterexample:
  "private_check_consistency (Puzzle [(''A'', [IsOfType ''Z'' Knight])] True)
     (Scenario [(''A'', Monk)]) = Inr (True, None)
   \<and> evaluate_truth (ConjunctiveStatement [NotStatement TrueStatement, IsOfType ''Z'' Knight])
       (Scenario [(''A'', Knight)]) = Inr False
   \<and> evaluate_truth (DisjunctiveStatement [TrueStatement, IsOfType ''Z'' Knight])
       (Scenario [(''A'', Knight)]) = Inr True
   \<and> private_check_consistency
       (Puzzle [(''A'', [NotStatement TrueStatement, IsOfType ''Z'' Knight])] True)
       (Scenario [(''A'', Knave)]) = Inr (True, None)"
  by (simp add: private_check_consistency_def Puzzle_def Scenario_def)

section \<open>IsOfType in the two versions\<close>

lemma IsOfType_evaluate_truth:
  "map_of (character_types sc) n = Some k \<Longrightarrow> evaluate_truth (IsOfType n c) sc = Inr (k = c)"
  by simp

lemma IsOfType_evaluate_truth_old_False:
  "map_of (character_types sc) n = Some k \<Longrightarrow> IsOfType_evaluate_truth_old n c sc = Inr False"
  by (simp add: IsOfType_evaluate_truth_old_def isinstance_def type_of_class_def)

text \<open>
  C5. In the package, \<open>IsOfType\<close> is true exactly when the target has the claimed identity
  (\<open>IsOfType_evaluate_truth\<close>). The first version tests \<^verbatim>\<open>isinstance\<close> on the class object that
  the scenario stores, which is false for every claimed identity
  (\<open>IsOfType_evaluate_truth_old_False\<close>): for a Knight it answers that the Knight is no Knight.
\<close>

theorem C5_IsOfType_old_version:
  "IsOfType_evaluate_truth_old ''A'' Knight (Scenario [(''A'', Knight)]) = Inr False
   \<and> evaluate_truth (IsOfType ''A'' Knight) (Scenario [(''A'', Knight)]) = Inr True"
  by (simp add: IsOfType_evaluate_truth_old_def isinstance_def type_of_class_def Scenario_def)

section \<open>The puzzle without characters\<close>

lemma Puzzle_empty:
  "Puzzle [] True =
     \<lparr>is_solved = False, scenarios = [], character_names = [], character_statements = [],
      max_num_monks = - 1\<rparr>"
  by (simp add: Puzzle_def calculate_max_num_monks_def)

text \<open>
  C10. A puzzle with no characters and Monks allowed has \<open>max_num_monks = -1\<close>; the scenarios
  generated for it are exactly the empty assignment, although its monk count 0 is above the
  bound; that scenario is consistent with no reason; and the solution count is 1.
\<close>

theorem C10_zero_characters:
  "max_num_monks (Puzzle [] True) = - 1
   \<and> generate_scenarios pcs (Puzzle [] True) = Inr ((Puzzle [] True)\<lparr>scenarios := [Scenario []]\<rparr>)
   \<and> int (count_list (map snd (character_types (Scenario []))) Monk) > max_num_monks (Puzzle [] True)
   \<and> check_consistency (Puzzle [] True) (Scenario [])
       = Inr ((True, None), (Scenario [])\<lparr>result := Some (True, None)\<rparr>)
   \<and> get_solution_count h pcs (Puzzle [] True)
       = Inr (1, (Puzzle [] True)
                   \<lparr>scenarios := [(Scenario [])\<lparr>result := Some (True, None)\<rparr>], is_solved := True\<rparr>)"
proof -
  have g: "generate_scenarios pcs (Puzzle [] True) = Inr ((Puzzle [] True)\<lparr>scenarios := [Scenario []]\<rparr>)"
    by (simp add: Puzzle_empty generate_scenarios_def itertools_product_def num_characters_def
        generate_scenario_def)
  have c: "check_consistency (Puzzle [] True) (Scenario [])
       = Inr ((True, None), (Scenario [])\<lparr>result := Some (True, None)\<rparr>)"
    by (simp add: Puzzle_empty check_consistency_def private_check_consistency_def)
  have gc: "generate_and_check_scenarios pcs (Puzzle [] True)
       = Inr ((Puzzle [] True)
                   \<lparr>scenarios := [(Scenario [])\<lparr>result := Some (True, None)\<rparr>], is_solved := True\<rparr>)"
    by (simp add: Puzzle_empty generate_and_check_scenarios_def generate_scenarios_def
        itertools_product_def num_characters_def generate_scenario_def check_scenario_def
        check_consistency_def private_check_consistency_def)
  have s: "get_solution_count h pcs (Puzzle [] True)
       = Inr (1, (Puzzle [] True)
                   \<lparr>scenarios := [(Scenario [])\<lparr>result := Some (True, None)\<rparr>], is_solved := True\<rparr>)"
    unfolding get_solution_count_def gc
    by (simp add: Puzzle_empty get_consistent_scenario_set_def Scenario_hash_def
        Scenario_character_string_def Scenario_def)
  show ?thesis
    using g c s by (simp add: Puzzle_empty Scenario_def)
qed

section \<open>The generated scenarios\<close>

lemma dict_set_fresh: "k \<notin> fst ` set d \<Longrightarrow> dict_set d k v = d @ [(k, v)]"
  by (induction d) auto

lemma fold_dict_set_distinct:
  "distinct (map fst xs) \<Longrightarrow> fst ` set d \<inter> fst ` set xs = {} \<Longrightarrow>
   fold (\<lambda>(character_name, statements) d. dict_set d character_name statements) xs d = d @ xs"
proof (induction xs arbitrary: d)
  case Nil
  show ?case by simp
next
  case (Cons x xs)
  obtain k v where x: "x = (k, v)" by (cases x)
  have fresh: "k \<notin> fst ` set d" using Cons.prems(2) x by auto
  have "fst ` set (d @ [(k, v)]) \<inter> fst ` set xs = {}"
    using Cons.prems x by auto
  with Cons.IH [of "d @ [(k, v)]"] Cons.prems(1) x fresh show ?case
    by (simp add: dict_set_fresh)
qed

lemma character_statements_Puzzle:
  "distinct (map fst cns) \<Longrightarrow> character_statements (Puzzle cns allow) = cns"
  using fold_dict_set_distinct [of cns "[]"] by (simp add: Puzzle_def)

lemma generate_scenario_loop_closed:
  "distinct names \<Longrightarrow> set names \<inter> fst ` set cts = {} \<Longrightarrow> i + length names \<le> length ids \<Longrightarrow>
   (if names = [] \<or> mc + int (count_list (take (length names) (drop i ids)) Monk) \<le> mx
    then generate_scenario_loop mx ids names i mc cts = Inr (cts @ zip names (drop i ids))
    else (\<exists>k. generate_scenario_loop mx ids names i mc cts = Inl (TooManyMonksError k)))"
proof (induction names arbitrary: i mc cts)
  case Nil
  show ?case by simp
next
  case (Cons name names)
  have i: "i < length ids" using Cons.prems(3) by simp
  have d: "drop i ids = ids ! i # drop (Suc i) ids"
    using i by (simp add: Cons_nth_drop_Suc)
  have fresh: "name \<notin> fst ` set cts" using Cons.prems(2) by auto
  let ?mc = "if ids ! i = Monk then mc + 1 else mc"
  let ?cts = "cts @ [(name, ids ! i)]"
  have IH: "(if names = [] \<or> ?mc + int (count_list (take (length names) (drop (Suc i) ids)) Monk) \<le> mx
    then generate_scenario_loop mx ids names (Suc i) ?mc ?cts = Inr (?cts @ zip names (drop (Suc i) ids))
    else (\<exists>k. generate_scenario_loop mx ids names (Suc i) ?mc ?cts = Inl (TooManyMonksError k)))"
    using Cons.prems by (intro Cons.IH) auto
  have cnt: "mc + int (count_list (take (length (name # names)) (drop i ids)) Monk)
      = ?mc + int (count_list (take (length names) (drop (Suc i) ids)) Monk)"
    by (subst d) simp
  have step: "generate_scenario_loop mx ids (name # names) i mc cts =
     (if ?mc > mx then Inl (TooManyMonksError ?mc)
      else generate_scenario_loop mx ids names (Suc i) ?mc ?cts)"
    using i fresh by (simp add: dict_set_fresh Let_def)
  show ?case
  proof (cases "?mc > mx")
    case True
    then have "\<not> (mc + int (count_list (take (length (name # names)) (drop i ids)) Monk) \<le> mx)"
      unfolding cnt by linarith
    then show ?thesis using True step by auto
  next
    case False
    show ?thesis
    proof (cases "names = []")
      case True
      then show ?thesis using False step cnt d by auto
    next
      case nn: False
      then show ?thesis using False step IH d unfolding cnt by auto
    qed
  qed
qed

lemma generate_scenario_closed:
  assumes "distinct (character_names p)" "length ids = length (character_names p)"
  shows "(if character_names p = [] \<or> int (count_list ids Monk) \<le> max_num_monks p
          then generate_scenario p ids = Inr (Scenario (zip (character_names p) ids))
          else (\<exists>k. generate_scenario p ids = Inl (TooManyMonksError k)))"
  using generate_scenario_loop_closed [of "character_names p" "[]" 0 ids 0 "max_num_monks p"] assms
  by (auto simp: generate_scenario_def)

lemma generate_scenarios_loop_closed:
  assumes "distinct (character_names p)"
    and "\<forall>ids\<in>set idss. length ids = length (character_names p)"
  shows "generate_scenarios_loop p idss scs =
     Inr (scs @ map (\<lambda>ids. Scenario (zip (character_names p) ids))
                 (filter (\<lambda>ids. character_names p = []
                            \<or> int (count_list ids Monk) \<le> max_num_monks p) idss))"
  using assms(2)
proof (induction idss arbitrary: scs)
  case Nil
  show ?case by simp
next
  case (Cons ids idss)
  have len: "length ids = length (character_names p)" using Cons.prems by simp
  note c = generate_scenario_closed [OF assms(1) len]
  show ?case
  proof (cases "character_names p = [] \<or> int (count_list ids Monk) \<le> max_num_monks p")
    case True
    with c have "generate_scenario p ids = Inr (Scenario (zip (character_names p) ids))"
      by simp
    then show ?thesis using True Cons by simp
  next
    case False
    with c obtain k where "generate_scenario p ids = Inl (TooManyMonksError k)"
      by auto
    then show ?thesis using False Cons by simp
  qed
qed


lemma UNIV_identity: "(UNIV :: identity set) = {Knight, Monk, Knave}"
proof -
  have "x \<in> {Knight, Monk, Knave}" for x :: identity by (cases x) auto
  then show ?thesis by blast
qed

lemma set_itertools_product:
  "set (itertools_product xs n) = {ids. length ids = n \<and> set ids \<subseteq> set xs}"
proof -
  have "list_all2 (\<lambda>x ys. x \<in> set ys) ids (replicate n xs) \<longleftrightarrow> length ids = n \<and> set ids \<subseteq> set xs"
    for ids
  proof -
    have "(\<forall>i<length ids. ids ! i \<in> set xs) \<longleftrightarrow> set ids \<subseteq> set xs"
      by (metis in_set_conv_nth subsetI subsetD nth_mem)
    then show ?thesis by (auto simp: list_all2_conv_all_nth)
  qed
  then show ?thesis
    by (simp add: itertools_product_def product_lists_set)
qed

lemma distinct_itertools_product: "distinct xs \<Longrightarrow> distinct (itertools_product xs n)"
  by (simp add: itertools_product_def distinct_product_lists)

lemma generate_scenarios_closed:
  assumes "distinct (character_names p)"
  shows "generate_scenarios pcs p =
     Inr (p\<lparr>scenarios :=
            map (\<lambda>ids. Scenario (zip (character_names p) ids))
              (filter (\<lambda>ids. character_names p = [] \<or> int (count_list ids Monk) \<le> max_num_monks p)
                 (itertools_product (if max_num_monks p = 0 then remove1 Monk pcs else pcs)
                    (num_characters p)))\<rparr>)"
proof -
  have "\<forall>ids\<in>set (itertools_product (if max_num_monks p = 0 then remove1 Monk pcs else pcs)
           (num_characters p)). length ids = length (character_names p)"
    by (simp add: set_itertools_product num_characters_def)
  from generate_scenarios_loop_closed [OF assms this, of "[]"] show ?thesis
    by (simp add: generate_scenarios_def Let_def)
qed

lemma inj_on_Scenario_zip:
  "inj_on (\<lambda>ids. Scenario (zip names ids)) {ids. length ids = length names}"
proof (rule inj_onI)
  fix xs ys :: "identity list"
  assume "xs \<in> {ids. length ids = length names}" "ys \<in> {ids. length ids = length names}"
    and "Scenario (zip names xs) = Scenario (zip names ys)"
  then have l: "length xs = length names" "length ys = length names"
    and "zip names xs = zip names ys"
    by (simp_all add: Scenario_def)
  then have "map snd (zip names xs) = map snd (zip names ys)" by simp
  with l show "xs = ys" by simp
qed

lemma allowed_orderings:
  assumes "distinct pcs" "set pcs = UNIV" "cns \<noteq> [] \<or> \<not> allow"
  shows "set (filter (\<lambda>ids. map fst cns = [] \<or> int (count_list ids Monk) \<le> calculate_max_num_monks (length cns) allow)
                 (itertools_product (if calculate_max_num_monks (length cns) allow = 0 then remove1 Monk pcs else pcs)
                    (length cns)))
       = {ids. length ids = length cns \<and> set ids \<subseteq> (if allow then UNIV else {Knight, Knave})
              \<and> int (count_list ids Monk) \<le> calculate_max_num_monks (length cns) allow}"
    (is "?L = ?R")
proof (cases "calculate_max_num_monks (length cns) allow = 0")
  case True
  have s: "set (remove1 Monk pcs) = {Knight, Knave}"
    using assms(1,2) by (auto simp: UNIV_identity)
  have k: "set ids \<subseteq> {Knight, Knave} \<longleftrightarrow> Monk \<notin> set ids" for ids
    using UNIV_identity by auto
  show ?thesis
    using True by (auto simp: set_itertools_product s k count_list_0_iff)
next
  case False
  then have allow: "allow" by (cases allow) (simp_all add: calculate_max_num_monks_def)
  with assms(3) have ne: "cns \<noteq> []" by simp
  show ?thesis
    using False allow ne assms(2) by (auto simp: set_itertools_product)
qed


lemma character_names_Puzzle: "character_names (Puzzle cns allow) = map fst cns"
  by (simp add: Puzzle_def)

lemma card_all_orderings: "card {ids :: identity list. length ids = n} = 3 ^ n"
proof -
  have "{ids :: identity list. length ids = n} = {ids. set ids \<subseteq> UNIV \<and> length ids = n}"
    by simp
  moreover have "card (UNIV :: identity set) = 3"
    by (simp add: UNIV_identity)
  moreover have "finite (UNIV :: identity set)"
    by (simp add: UNIV_identity)
  ultimately show ?thesis
    using card_lists_length_eq [of "UNIV :: identity set" n] by simp
qed

lemma scenarios_of_orderings:
  assumes "distinct L" and "set L = T" and "T \<subseteq> {ids. length ids = length names}"
  shows "distinct (map (\<lambda>ids. Scenario (zip names ids)) L)
         \<and> set (map (\<lambda>ids. Scenario (zip names ids)) L) = (\<lambda>ids. Scenario (zip names ids)) ` T
         \<and> length (map (\<lambda>ids. Scenario (zip names ids)) L) = card T"
proof -
  have "inj_on (\<lambda>ids. Scenario (zip names ids)) (set L)"
    using inj_on_subset [OF inj_on_Scenario_zip [of names]] assms(2,3) by blast
  then have "distinct (map (\<lambda>ids. Scenario (zip names ids)) L)"
    using assms(1) by (simp add: distinct_map)
  moreover have "length L = card T"
    using assms(1,2) distinct_card [of L] by simp
  ultimately show ?thesis
    using assms(2) by simp
qed

lemma card_within_bound:
  "int (card {ids. length ids = n \<and> int (count_list ids Monk) \<le> mx})
     = 3 ^ n - int (card {ids. length ids = n \<and> int (count_list ids Monk) > mx})"
    (is "int (card ?T) = _ - int (card ?B)")
proof -
  have fu: "finite (UNIV :: identity set)"
    by (simp add: UNIV_identity)
  have fin: "finite {ids :: identity list. length ids = n}"
    using finite_lists_length_eq [OF fu, of n] by simp
  have T: "?T = {ids. length ids = n} - ?B"
    by auto
  have "?B \<subseteq> {ids. length ids = n}" by auto
  then have "card ?T = card {ids :: identity list. length ids = n} - card ?B"
    unfolding T using fin by (simp add: card_Diff_subset finite_subset)
  moreover have "card ?B \<le> card {ids :: identity list. length ids = n}"
    using fin by (intro card_mono) auto
  ultimately show ?thesis
    by (simp add: card_all_orderings of_nat_diff)
qed

lemma generate_scenarios_old_closed:
  assumes "distinct (character_names p)"
  shows "generate_scenarios_old p =
     Inr (p\<lparr>scenarios :=
            map (\<lambda>ids. Scenario (zip (character_names p) ids))
              (filter (\<lambda>ids. character_names p = [] \<or> int (count_list ids Monk) \<le> max_num_monks p)
                 (itertools_product [Knight, Knave, Monk] (num_characters p)))\<rparr>)"
proof -
  have "\<forall>ids\<in>set (itertools_product [Knight, Knave, Monk] (num_characters p)).
          length ids = length (character_names p)"
    by (simp add: set_itertools_product num_characters_def)
  from generate_scenarios_loop_closed [OF assms this, of "[]"] show ?thesis
    by (simp add: generate_scenarios_old_def)
qed

text \<open>
  C6 as the code has it. For a puzzle with at least one character, or with Monks forbidden,
  the generated scenarios are, without repetition, exactly the assignments of identities
  (all three when Monks are allowed, Knight and Knave when they are forbidden) to the
  character names whose number of Monks is at most \<open>max_num_monks\<close>; with Monks allowed their
  number is \<open>3 ^ n\<close> less the number of assignments with more Monks than that. The first
  version of the source generates the same scenarios for a puzzle with at least one
  character.
\<close>

theorem C6_generate_scenarios:
  assumes "distinct (map fst cns)" and "distinct pcs" and "set pcs = UNIV"
    and "cns \<noteq> [] \<or> \<not> allow"
  shows "(\<exists>scs. generate_scenarios pcs (Puzzle cns allow) = Inr ((Puzzle cns allow)\<lparr>scenarios := scs\<rparr>)
           \<and> distinct scs
           \<and> set scs = (\<lambda>ids. Scenario (zip (map fst cns) ids)) `
                 {ids. length ids = length cns
                       \<and> set ids \<subseteq> (if allow then UNIV else {Knight, Knave})
                       \<and> int (count_list ids Monk) \<le> max_num_monks (Puzzle cns allow)}
           \<and> (allow \<longrightarrow> int (length scs)
                 = 3 ^ length cns
                   - int (card {ids. length ids = length cns
                            \<and> int (count_list ids Monk) > max_num_monks (Puzzle cns allow)})))
         \<and> (cns \<noteq> [] \<longrightarrow>
              (\<exists>scs. generate_scenarios_old (Puzzle_old cns) = Inr ((Puzzle_old cns)\<lparr>scenarios := scs\<rparr>)
                 \<and> distinct scs
                 \<and> set scs = (\<lambda>ids. Scenario (zip (map fst cns) ids)) `
                       {ids. length ids = length cns
                             \<and> int (count_list ids Monk) \<le> max_num_monks (Puzzle_old cns)}
                 \<and> int (length scs)
                       = 3 ^ length cns
                         - int (card {ids. length ids = length cns
                                  \<and> int (count_list ids Monk) > max_num_monks (Puzzle_old cns)})))"
proof -
  let ?p = "Puzzle cns allow"
  let ?mx = "calculate_max_num_monks (length cns) allow"
  let ?good = "\<lambda>ids. map fst cns = [] \<or> int (count_list ids Monk) \<le> ?mx"
  let ?pc = "if ?mx = 0 then remove1 Monk pcs else pcs"
  let ?L = "filter ?good (itertools_product ?pc (length cns))"
  let ?f = "\<lambda>ids. Scenario (zip (map fst cns) ids)"
  let ?T = "{ids. length ids = length cns \<and> set ids \<subseteq> (if allow then UNIV else {Knight, Knave})
              \<and> int (count_list ids Monk) \<le> ?mx}"
  have gen: "generate_scenarios pcs ?p = Inr (?p\<lparr>scenarios := map ?f ?L\<rparr>)"
    using generate_scenarios_closed [of ?p pcs] assms(1)
    by (simp add: character_names_Puzzle max_num_monks_Puzzle num_characters_Puzzle)
  have setL: "set ?L = ?T"
    using allowed_orderings [OF assms(2,3,4)] .
  have dpc: "distinct ?pc" using assms(2) by simp
  have dL: "distinct ?L"
    using distinct_itertools_product [OF dpc] by simp
  have sub: "?T \<subseteq> {ids. length ids = length (map fst cns)}"
    by auto
  note facts = scenarios_of_orderings [OF dL setL sub]
  have c: "int (length (map ?f ?L))
      = 3 ^ length cns
        - int (card {ids. length ids = length cns \<and> int (count_list ids Monk) > ?mx})" if allow
  proof -
    have "?T = {ids. length ids = length cns \<and> int (count_list ids Monk) \<le> ?mx}"
      using that by auto
    then show ?thesis
      using facts card_within_bound [of "length cns" ?mx] by simp
  qed
  have package: "\<exists>scs. generate_scenarios pcs ?p = Inr (?p\<lparr>scenarios := scs\<rparr>)
           \<and> distinct scs \<and> set scs = ?f ` ?T
           \<and> (allow \<longrightarrow> int (length scs)
                 = 3 ^ length cns
                   - int (card {ids. length ids = length cns \<and> int (count_list ids Monk) > ?mx}))"
    using gen facts c by blast
  let ?q = "Puzzle_old cns"
  let ?mo = "calculate_max_num_monks_old (length cns)"
  let ?Lo = "filter (\<lambda>ids. map fst cns = [] \<or> int (count_list ids Monk) \<le> ?mo)
               (itertools_product [Knight, Knave, Monk] (length cns))"
  let ?To = "{ids. length ids = length cns \<and> int (count_list ids Monk) \<le> ?mo}"
  have old: "\<exists>scs. generate_scenarios_old ?q = Inr (?q\<lparr>scenarios := scs\<rparr>)
           \<and> distinct scs \<and> set scs = ?f ` ?To
           \<and> int (length scs)
                 = 3 ^ length cns
                   - int (card {ids. length ids = length cns \<and> int (count_list ids Monk) > ?mo})"
    if ne: "cns \<noteq> []"
  proof -
    have geno: "generate_scenarios_old ?q = Inr (?q\<lparr>scenarios := map ?f ?Lo\<rparr>)"
      using generate_scenarios_old_closed [of ?q] assms(1)
      by (simp add: Puzzle_old_def num_characters_def)
    have "set ids \<subseteq> set [Knight, Knave, Monk]" for ids :: "identity list"
      using UNIV_identity by auto
    then have "set (itertools_product [Knight, Knave, Monk] (length cns))
        = {ids. length ids = length cns}"
      unfolding set_itertools_product by blast
    then have setLo: "set ?Lo = ?To"
      using ne by auto
    have dLo: "distinct ?Lo"
      using distinct_itertools_product [of "[Knight, Knave, Monk]"] by simp
    have subo: "?To \<subseteq> {ids. length ids = length (map fst cns)}"
      by auto
    note factso = scenarios_of_orderings [OF dLo setLo subo]
    show ?thesis
      using geno factso card_within_bound [of "length cns" ?mo] by auto
  qed
  have mo: "max_num_monks ?q = ?mo"
    by (simp add: Puzzle_old_def)
  show ?thesis
    using package old unfolding max_num_monks_Puzzle mo by blast
qed

theorem C6_generate_scenarios_witness:
  "distinct (map fst ([(''A'', []), (''B'', []), (''C'', [])] :: (string \<times> statement list) list))
   \<and> distinct [Knight, Knave, Monk] \<and> set [Knight, Knave, Monk] = UNIV
   \<and> (\<exists>scs. generate_scenarios [Knight, Knave, Monk]
                (Puzzle [(''A'', []), (''B'', []), (''C'', [])] True)
              = Inr ((Puzzle [(''A'', []), (''B'', []), (''C'', [])] True)\<lparr>scenarios := scs\<rparr>)
            \<and> distinct scs
            \<and> set scs = (\<lambda>ids. Scenario (zip [''A'', ''B'', ''C''] ids)) `
                  {ids. length ids = 3 \<and> int (count_list ids Monk) \<le> 1}
            \<and> int (length scs)
                  = 27 - int (card {ids. length ids = 3 \<and> int (count_list ids Monk) > 1}))"
proof -
  let ?cns = "[(''A'', []), (''B'', []), (''C'', [])] :: (string \<times> statement list) list"
  have h1: "distinct (map fst ?cns)" by simp
  have h2: "distinct [Knight, Knave, Monk]" by simp
  have h3: "set [Knight, Knave, Monk] = UNIV" by (auto simp: UNIV_identity)
  have h4: "?cns \<noteq> [] \<or> \<not> True" by simp
  have m: "max_num_monks (Puzzle ?cns True) = 1"
    by (simp add: max_num_monks_Puzzle calculate_max_num_monks_parity)
  have l: "length ?cns = 3" by simp
  have n: "map fst ?cns = [''A'', ''B'', ''C'']" by simp
  from C6_generate_scenarios [OF h1 h2 h3 h4, THEN conjunct1]
  have "\<exists>scs. generate_scenarios [Knight, Knave, Monk] (Puzzle ?cns True)
              = Inr ((Puzzle ?cns True)\<lparr>scenarios := scs\<rparr>)
            \<and> distinct scs
            \<and> set scs = (\<lambda>ids. Scenario (zip [''A'', ''B'', ''C''] ids)) `
                  {ids. length ids = 3 \<and> int (count_list ids Monk) \<le> 1}
            \<and> int (length scs)
                  = 27 - int (card {ids. length ids = 3 \<and> int (count_list ids Monk) > 1})"
    unfolding m l n by simp
  with h1 h2 h3 show ?thesis by (intro conjI)
qed

text \<open>
  C6 as stated fails for the puzzle without characters when Monks are allowed: the bound is
  \<open>-1\<close>, the empty assignment has 0 Monks, which is above the bound, and it is generated all
  the same, because the bound is only tested inside the loop over the characters.
\<close>

theorem C6_counterexample:
  "generate_scenarios [Knight, Knave, Monk] (Puzzle [] True)
     = Inr ((Puzzle [] True)\<lparr>scenarios := [Scenario []]\<rparr>)
   \<and> max_num_monks (Puzzle [] True) = - 1
   \<and> \<not> int (count_list (map snd (character_types (Scenario []))) Monk)
         \<le> max_num_monks (Puzzle [] True)"
  by (simp add: Puzzle_empty generate_scenarios_def itertools_product_def num_characters_def
      generate_scenario_def Scenario_def)

section \<open>Validity of a puzzle\<close>

text \<open>
  C9. \<open>is_valid_puzzle\<close> answers true exactly when the number of characters is between 3
  and 7 and the solution count, which it asks for only then, is between 0 and 2. So with a
  character count in range a solution count of 0, 1 or 2 is valid and 3 is not, and a puzzle
  with 2 or with 8 characters is invalid whatever its statements are.
\<close>

theorem C9_is_valid_puzzle:
  "(map_sum id fst (is_valid_puzzle h pcs p) = Inr True \<longleftrightarrow>
      3 \<le> num_characters p \<and> num_characters p \<le> 7
      \<and> (\<exists>c p1. get_solution_count h pcs p = Inr (c, p1) \<and> 0 \<le> int c \<and> int c \<le> 2))
   \<and> (\<forall>c p1. 3 \<le> num_characters p \<and> num_characters p \<le> 7
          \<and> get_solution_count h pcs p = Inr (c, p1)
        \<longrightarrow> is_valid_puzzle h pcs p = Inr (c = 0 \<or> c = 1 \<or> c = 2, p1))
   \<and> (num_characters p = 2 \<or> num_characters p = 8 \<longrightarrow> is_valid_puzzle h pcs p = Inr (False, p))"
  by (auto simp: is_valid_puzzle_def CHARACTER_COUNT_BOUND_def SOLUTION_COUNT_BOUND_def
      split: sum.splits prod.splits)


theorem C9_is_valid_puzzle_witness:
  "map_sum id fst
     (is_valid_puzzle (int \<circ> length) [Knight, Knave, Monk]
        (Puzzle [(''A'', [TrueStatement]), (''B'', [TrueStatement]), (''C'', [TrueStatement])] False))
     = Inr True
   \<and> is_valid_puzzle (int \<circ> length) [Knight, Knave, Monk] (Puzzle [(''A'', []), (''B'', [])] True)
     = Inr (False, Puzzle [(''A'', []), (''B'', [])] True)"
proof -
  let ?p = "Puzzle [(''A'', [TrueStatement]), (''B'', [TrueStatement]), (''C'', [TrueStatement])] False"
  have "map_sum id fst (get_solution_count (int \<circ> length) [Knight, Knave, Monk] ?p) = Inr 1"
    by code_simp
  then obtain p1 where c: "get_solution_count (int \<circ> length) [Knight, Knave, Monk] ?p = Inr (1, p1)"
    by (cases "get_solution_count (int \<circ> length) [Knight, Knave, Monk] ?p") auto
  have n: "num_characters ?p = 3" by (simp add: num_characters_Puzzle)
  have n2: "num_characters (Puzzle [(''A'', []), (''B'', [])] True) = 2"
    by (simp add: num_characters_Puzzle)
  show ?thesis
    using C9_is_valid_puzzle [of "int \<circ> length" "[Knight, Knave, Monk]" ?p]
      C9_is_valid_puzzle [of "int \<circ> length" "[Knight, Knave, Monk]"
        "Puzzle [(''A'', []), (''B'', [])] True"]
      c n n2
    by simp
qed

section \<open>Equality and hashing\<close>

lemma eq_loop_True_iff:
  "eq_loop a b = Inr True \<longleftrightarrow> (\<forall>(n, t)\<in>set a. map_of b n = Some t)"
proof (induction a)
  case Nil
  show ?case by simp
next
  case (Cons x a)
  obtain n t where x: "x = (n, t)" by (cases x)
  show ?case
    unfolding x using Cons.IH by (cases "map_of b n") auto
qed

lemma Scenario_eq_True_iff:
  assumes "distinct (map fst (character_types a))" and "distinct (map fst (character_types b))"
  shows "Scenario_eq a b = Inr True \<longleftrightarrow> map_of (character_types a) = map_of (character_types b)"
proof -
  let ?A = "character_types a" and ?B = "character_types b"
  have dA: "distinct ?A" and dB: "distinct ?B"
    using assms distinct_map by blast+
  have inj: "map_of ?A = map_of ?B \<longleftrightarrow> set ?A = set ?B"
    using map_of_inject_set [OF assms] .
  show ?thesis
  proof
    assume "Scenario_eq a b = Inr True"
    then have len: "length ?A = length ?B" and all: "\<forall>(n, t)\<in>set ?A. map_of ?B n = Some t"
      by (auto simp: Scenario_eq_def eq_loop_True_iff split: if_splits)
    have sub: "set ?A \<subseteq> set ?B"
      using all by (auto dest: map_of_SomeD)
    have "card (set ?A) = card (set ?B)"
      using len dA dB by (simp add: distinct_card)
    with sub have "set ?A = set ?B"
      by (simp add: card_subset_eq)
    with inj show "map_of ?A = map_of ?B" by simp
  next
    assume "map_of ?A = map_of ?B"
    with inj have s: "set ?A = set ?B" by simp
    then have "length ?A = length ?B"
      using dA dB distinct_card [of ?A] distinct_card [of ?B] by simp
    moreover have "\<forall>(n, t)\<in>set ?A. map_of ?B n = Some t"
      using s assms(2) by auto
    ultimately show "Scenario_eq a b = Inr True"
      by (simp add: Scenario_eq_def eq_loop_True_iff)
  qed
qed

lemma character_string_loop_cong:
  "map_of cts = map_of cts' \<Longrightarrow>
   character_string_loop cts names s = character_string_loop cts' names s"
  by (induction names arbitrary: s) (auto split: option.splits)

lemma Scenario_hash_eq:
  assumes "distinct (map fst (character_types a))" and "distinct (map fst (character_types b))"
    and "Scenario_eq a b = Inr True"
  shows "Scenario_hash h a = Scenario_hash h b"
proof -
  let ?A = "character_types a" and ?B = "character_types b"
  have m: "map_of ?A = map_of ?B"
    using Scenario_eq_True_iff [OF assms(1,2)] assms(3) by simp
  then have "set ?A = set ?B"
    using map_of_inject_set [OF assms(1,2)] by simp
  then have "set (map fst ?A) = set (map fst ?B)" by simp
  then have "sort (map fst ?A) = sort (map fst ?B)"
    using assms(1,2) by (intro sorted_distinct_set_unique) simp_all
  with m show ?thesis
    by (simp add: Scenario_hash_def Scenario_character_string_def
        character_string_loop_cong [of ?A ?B])
qed

text \<open>
  C8. \<^verbatim>\<open>__eq__\<close> answers true exactly for two scenarios with the same assignment
  (\<open>Scenario_eq_True_iff\<close>; for two different name sets of the same size it raises
  \<open>KeyError\<close> instead of answering false), and in the package equal scenarios have equal
  hashes whatever the insertion order was (\<open>Scenario_hash_eq\<close>). The first version builds the
  hashed string in insertion order: two equal scenarios whose names were inserted in different
  orders hash different strings.
\<close>

theorem C8_hash_old_version:
  "Scenario_eq (Scenario [(''A'', Knight), (''B'', Knave)]) (Scenario [(''B'', Knave), (''A'', Knight)]) = Inr True
   \<and> character_string_old (character_types (Scenario [(''A'', Knight), (''B'', Knave)])) ''|'' = ''|A,K|B,V|''
   \<and> character_string_old (character_types (Scenario [(''B'', Knave), (''A'', Knight)])) ''|'' = ''|B,V|A,K|''
   \<and> Scenario_character_string (Scenario [(''A'', Knight), (''B'', Knave)]) = Inr ''|A,K|B,V|''
   \<and> Scenario_character_string (Scenario [(''B'', Knave), (''A'', Knight)]) = Inr ''|A,K|B,V|''
   \<and> Scenario_eq (Scenario [(''A'', Knight)]) (Scenario [(''B'', Knight)]) = Inl (KeyError ''A'')"
  by (simp add: Scenario_eq_def Scenario_def Scenario_character_string_def)


section \<open>Puzzles that reach the monk bound\<close>

lemma has_maximum_monks_loop_iff:
  "has_maximum_monks_loop mx scs
     \<longleftrightarrow> (\<exists>s\<in>set scs. int (count_list (map snd (character_types s)) Monk) = mx)"
  by (induction scs) (auto simp: Let_def)

lemma generate_scenarios_max_num_monks:
  "generate_scenarios pcs p = Inr p1 \<Longrightarrow> max_num_monks p1 = max_num_monks p"
  by (auto simp: generate_scenarios_def Let_def split: sum.splits)

lemma generate_and_check_scenarios_max_num_monks:
  "generate_and_check_scenarios pcs p = Inr p1 \<Longrightarrow> max_num_monks p1 = max_num_monks p"
  by (auto simp: generate_and_check_scenarios_def split: sum.splits if_splits
      dest: generate_scenarios_max_num_monks)


lemma set_add_subset: "set_add h ys x = Inr zs \<Longrightarrow> set zs \<subseteq> insert x (set ys)"
  by (induction ys arbitrary: zs) (auto split: sum.splits if_splits)

lemma consistent_scenario_loop_subset:
  "consistent_scenario_loop h scs ret = Inr out \<Longrightarrow> set out \<subseteq> set ret \<union> set scs"
proof (induction scs arbitrary: ret)
  case Nil
  then show ?case by simp
next
  case (Cons sc scs)
  show ?case
  proof (cases "result sc")
    case None
    with Cons.prems show ?thesis by simp
  next
    case (Some r)
    show ?thesis
    proof (cases "fst r")
      case True
      with Some Cons.prems obtain ret' where a: "set_add h ret sc = Inr ret'"
        and l: "consistent_scenario_loop h scs ret' = Inr out"
        by (auto split: sum.splits)
      from Cons.IH [OF l] set_add_subset [OF a] show ?thesis by auto
    next
      case False
      with Some Cons.prems have "consistent_scenario_loop h scs ret = Inr out" by simp
      from Cons.IH [OF this] show ?thesis by auto
    qed
  qed
qed

lemma check_scenario_types:
  "check_scenario p sc = Inr sc' \<Longrightarrow> character_types sc' = character_types sc"
  by (auto simp: check_scenario_def check_consistency_def split: sum.splits)

lemma check_scenarios_loop_types:
  "check_scenarios_loop p scs = Inr scs' \<Longrightarrow> map character_types scs' = map character_types scs"
  by (induction scs arbitrary: scs') (auto split: sum.splits dest: check_scenario_types)

lemma solved_scenarios_types:
  assumes "scenarios p = []" and "generate_scenarios pcs p = Inr (p\<lparr>scenarios := G\<rparr>)"
    and "generate_and_check_scenarios pcs p = Inr p1"
  shows "map character_types (scenarios p1) = map character_types G"
proof -
  have "generate_and_check_scenarios pcs p
      = (case check_scenarios_loop (p\<lparr>scenarios := G\<rparr>) G of
           Inl e \<Rightarrow> Inl e
         | Inr scs \<Rightarrow> Inr (p\<lparr>scenarios := scs, is_solved := True\<rparr>))"
    unfolding generate_and_check_scenarios_def using assms(1,2)
    by (simp cong: sum.case_cong)
  with assms(3) obtain scs where chk: "check_scenarios_loop (p\<lparr>scenarios := G\<rparr>) G = Inr scs"
    and p1: "p1 = p\<lparr>scenarios := scs, is_solved := True\<rparr>"
    by (cases "check_scenarios_loop (p\<lparr>scenarios := G\<rparr>) G") auto
  from check_scenarios_loop_types [OF chk] p1 show ?thesis by simp
qed

lemma solved_scenarios_within_bound:
  assumes "distinct (map fst cns)"
    and "generate_and_check_scenarios pcs (Puzzle cns allow) = Inr p1"
    and "s \<in> set (scenarios p1)"
  shows "int (count_list (map snd (character_types s)) Monk) = 0
         \<or> int (count_list (map snd (character_types s)) Monk) \<le> max_num_monks (Puzzle cns allow)"
proof -
  let ?p = "Puzzle cns allow"
  define L where "L = filter (\<lambda>ids. character_names ?p = [] \<or> int (count_list ids Monk) \<le> max_num_monks ?p)
      (itertools_product (if max_num_monks ?p = 0 then remove1 Monk pcs else pcs) (num_characters ?p))"
  define G where "G = map (\<lambda>ids. Scenario (zip (character_names ?p) ids)) L"
  have dn: "distinct (character_names ?p)"
    using assms(1) by (simp only: character_names_Puzzle)
  have gen: "generate_scenarios pcs ?p = Inr (?p\<lparr>scenarios := G\<rparr>)"
    unfolding G_def L_def by (rule generate_scenarios_closed [OF dn])
  have fresh: "scenarios ?p = []" by (simp add: Puzzle_def)
  have "map character_types (scenarios p1) = map character_types G"
    by (rule solved_scenarios_types [OF fresh gen assms(2)])
  moreover have "character_types s \<in> set (map character_types (scenarios p1))"
    using assms(3) by simp
  ultimately have "character_types s \<in> set (map character_types G)" by simp
  then obtain ids where ids: "ids \<in> set L"
    and cs: "character_types s = zip (character_names ?p) ids"
    unfolding G_def by (auto simp: Scenario_def)
  from ids have len: "length ids = length (character_names ?p)"
    and good: "character_names ?p = [] \<or> int (count_list ids Monk) \<le> max_num_monks ?p"
    unfolding L_def by (simp_all add: set_itertools_product num_characters_def)
  from len have "map snd (zip (character_names ?p) ids) = ids" by simp
  with cs good show ?thesis by auto
qed

text \<open>
  C3 as the code has it. For a freshly built puzzle that is solved without an exception,
  \<open>has_maximum_monks\<close> is true exactly when some solution scenario has exactly
  \<open>max_num_monks\<close> Monks. When \<open>max_num_monks\<close> is 0 no generated scenario has a Monk, so it
  is then true exactly when the puzzle has a solution.
\<close>

theorem C3_has_maximum_monks:
  assumes "distinct (map fst cns)"
    and "generate_and_check_scenarios pcs (Puzzle cns allow) = Inr p1"
    and "get_consistent_scenario_set h p1 = Inr ret"
  shows "has_maximum_monks h pcs (Puzzle cns allow)
           = Inr ((\<exists>s\<in>set ret. int (count_list (map snd (character_types s)) Monk)
                                  = max_num_monks (Puzzle cns allow)), p1)
         \<and> (max_num_monks (Puzzle cns allow) = 0
              \<longrightarrow> has_maximum_monks h pcs (Puzzle cns allow) = Inr (ret \<noteq> [], p1))"
proof -
  let ?p = "Puzzle cns allow"
  have fresh: "\<not> is_solved ?p" by (simp add: Puzzle_def)
  have mx: "max_num_monks p1 = max_num_monks ?p"
    using generate_and_check_scenarios_max_num_monks [OF assms(2)] .
  have a: "has_maximum_monks h pcs ?p
           = Inr ((\<exists>s\<in>set ret. int (count_list (map snd (character_types s)) Monk)
                                  = max_num_monks ?p), p1)"
    using fresh assms(2,3) mx by (simp add: has_maximum_monks_def has_maximum_monks_loop_iff)
  have sub: "set ret \<subseteq> set (scenarios p1)"
    using consistent_scenario_loop_subset [of h "scenarios p1" "[]" ret] assms(3)
    by (simp add: get_consistent_scenario_set_def)
  have b: "(\<exists>s\<in>set ret. int (count_list (map snd (character_types s)) Monk) = max_num_monks ?p)
           \<longleftrightarrow> ret \<noteq> []" if z: "max_num_monks ?p = 0"
  proof
    assume "\<exists>s\<in>set ret. int (count_list (map snd (character_types s)) Monk) = max_num_monks ?p"
    then show "ret \<noteq> []" by auto
  next
    assume "ret \<noteq> []"
    then obtain s where s: "s \<in> set ret" by (cases ret) auto
    with sub have "s \<in> set (scenarios p1)" by blast
    from solved_scenarios_within_bound [OF assms(1,2) this] z
    have "int (count_list (map snd (character_types s)) Monk) = 0" by auto
    with s z show "\<exists>s\<in>set ret. int (count_list (map snd (character_types s)) Monk) = max_num_monks ?p"
      by auto
  qed
  show ?thesis
    using a b by simp
qed

theorem C3_has_maximum_monks_witness:
  "\<exists>p1 ret. generate_and_check_scenarios [Knight, Knave, Monk]
       (Puzzle [(''A'', [TrueStatement]), (''B'', [TrueStatement]), (''C'', [TrueStatement])] False)
         = Inr p1
     \<and> get_consistent_scenario_set (int \<circ> length) p1 = Inr ret
     \<and> ret \<noteq> []
     \<and> has_maximum_monks (int \<circ> length) [Knight, Knave, Monk]
         (Puzzle [(''A'', [TrueStatement]), (''B'', [TrueStatement]), (''C'', [TrueStatement])] False)
         = Inr (True, p1)"
proof -
  let ?cns = "[(''A'', [TrueStatement]), (''B'', [TrueStatement]), (''C'', [TrueStatement])]"
  let ?p = "Puzzle ?cns False"
  have "(case generate_and_check_scenarios [Knight, Knave, Monk] ?p of
           Inl e \<Rightarrow> False
         | Inr p1 \<Rightarrow> (case get_consistent_scenario_set (int \<circ> length) p1 of
                        Inl e \<Rightarrow> False
                      | Inr ret \<Rightarrow> ret \<noteq> []))"
    by code_simp
  then obtain p1 ret where g: "generate_and_check_scenarios [Knight, Knave, Monk] ?p = Inr p1"
    and c: "get_consistent_scenario_set (int \<circ> length) p1 = Inr ret"
    and r: "ret \<noteq> []"
    by (auto split: sum.splits)
  have d: "distinct (map fst ?cns)" by simp
  have z: "max_num_monks ?p = 0" by (simp add: max_num_monks_Puzzle calculate_max_num_monks_def)
  from C3_has_maximum_monks [OF d g c, THEN conjunct2] z
  have "has_maximum_monks (int \<circ> length) [Knight, Knave, Monk] ?p = Inr (ret \<noteq> [], p1)"
    by blast
  with r have "has_maximum_monks (int \<circ> length) [Knight, Knave, Monk] ?p = Inr (True, p1)"
    by simp
  with g c r show ?thesis by blast
qed

text \<open>
  C3 as stated fails: with Monks forbidden \<open>max_num_monks\<close> is 0, every scenario of three
  silent characters is a solution with 0 Monks, and \<open>has_maximum_monks\<close> is true.
\<close>

theorem C3_counterexample:
  "max_num_monks (Puzzle [(''A'', []), (''B'', []), (''C'', [])] False) = 0
   \<and> map_sum id fst
       (has_maximum_monks (int \<circ> length) [Knight, Knave, Monk]
          (Puzzle [(''A'', []), (''B'', []), (''C'', [])] False)) = Inr True"
  by code_simp

end
